theory Spec2Isabelle
  imports Complex_Main "HOL-Library.Sublist" "HOL-Library.Multiset" "HOL-Library.AList"
begin


section \<open>Text primitives\<close>

text \<open>
  A Python \<open>str\<close> is a sequence of code points. The model takes the code points below
  256, so a text is a \<open>string\<close> and one \<open>char\<close> is one code point. The methods of
  \<open>str\<close> the program calls are written out on that range.
\<close>

definition newline :: char where
  "newline = CHR 0x0A"

text \<open>
  \<open>str.isspace\<close> on one character, which is also what \<open>\s\<close> matches in \<open>re\<close> and
  what \<open>strip()\<close> and \<open>split()\<close> remove: TAB, LF, VT, FF, CR, the separators
  0x1C to 0x1F, the space, NEL (0x85) and the no-break space (0xA0).
\<close>

definition isspace :: "char \<Rightarrow> bool" where
  "isspace c =
     (let n = (of_char c :: nat)
      in (9 \<le> n \<and> n \<le> 13) \<or> (28 \<le> n \<and> n \<le> 32) \<or> n = 133 \<or> n = 160)"

text \<open>
  \<open>str.lower\<close>: the letters A to Z and the upper-case letters 0xC0 to 0xDE (the
  multiplication sign 0xD7 is not a letter) move 32 code points up.
\<close>

definition lower_char :: "char \<Rightarrow> char" where
  "lower_char c =
     (let n = (of_char c :: nat)
      in if (65 \<le> n \<and> n \<le> 90) \<or> (192 \<le> n \<and> n \<le> 222 \<and> n \<noteq> 215)
         then char_of (n + 32) else c)"

definition lower :: "string \<Rightarrow> string" where
  "lower s = map lower_char s"

text \<open>\<open>s.strip()\<close>: whitespace removed at both ends.\<close>

definition strip :: "string \<Rightarrow> string" where
  "strip s = rev (dropWhile isspace (rev (dropWhile isspace s)))"

text \<open>
  \<open>s.split()\<close>: the maximal runs of characters that are not whitespace, in order.
  \<open>cur\<close> is the run being read.
\<close>

fun split_ws_from :: "string \<Rightarrow> string \<Rightarrow> string list" where
  "split_ws_from cur [] = (if cur = [] then [] else [cur])"
| "split_ws_from cur (c # cs) =
     (if isspace c
      then (if cur = [] then split_ws_from [] cs else cur # split_ws_from [] cs)
      else split_ws_from (cur @ [c]) cs)"

definition split_ws :: "string \<Rightarrow> string list" where
  "split_ws s = split_ws_from [] s"

text \<open>\<open>s.split(d)\<close> for a one-character separator: never empty, \<open>['''']\<close> for the empty text.\<close>

fun split_on :: "char \<Rightarrow> string \<Rightarrow> string list" where
  "split_on d [] = [[]]"
| "split_on d (c # cs) =
     (if c = d then [] # split_on d cs
      else (case split_on d cs of
              [] \<Rightarrow> [[c]]
            | l # ls \<Rightarrow> (c # l) # ls))"

text \<open>\<open>sep.join(xs)\<close>.\<close>

fun join :: "string \<Rightarrow> string list \<Rightarrow> string" where
  "join sep [] = []"
| "join sep [x] = x"
| "join sep (x # y # ys) = x @ sep @ join sep (y # ys)"

text \<open>\<open>k in s\<close> on texts: \<open>k\<close> occurs in \<open>s\<close> as a contiguous run.\<close>

fun contains :: "string \<Rightarrow> string \<Rightarrow> bool" where
  "contains [] k = (k = [])"
| "contains (c # cs) k = (prefix k (c # cs) \<or> contains cs k)"

text \<open>\<open>s.find(c)\<close> for a character that occurs in \<open>s\<close>: the index of its first occurrence.\<close>

definition find_char :: "char \<Rightarrow> string \<Rightarrow> nat" where
  "find_char c s = length (takeWhile (\<lambda>x. x \<noteq> c) s)"

section \<open>Section Extractor (\<open>FileService._extract_sections\<close>)\<close>

text \<open>
  A section is the dictionary the extractor builds: \<open>end_line\<close> is \<open>None\<close> while the
  section is open. Line numbers start at 1 (\<open>enumerate(lines, 1)\<close>).
\<close>

record md_section =
  title :: string
  level :: nat
  start_line :: nat
  content :: string
  end_line :: "nat option"

text \<open>
  \<open>re.match(r"^(#{1,6})\s+(.+)$", line)\<close> on a line without a line feed (the lines come
  from \<open>split("\n")\<close>), as the backtracking matcher runs it: the first group takes as
  many hashes as it can (at most 6) and gives them back one at a time, \<open>\s+\<close> takes as
  much whitespace as it can and gives it back one character at a time, and \<open>(.+)$\<close>
  takes the whole rest, which must be non-empty and free of line feeds. The result is
  the two groups of the first attempt that succeeds.
\<close>

definition match_rest :: "string \<Rightarrow> nat \<Rightarrow> string option" where
  "match_rest s m = (let t = drop m s in if t \<noteq> [] \<and> newline \<notin> set t then Some t else None)"

definition match_space :: "string \<Rightarrow> string option" where
  "match_space s =
     (let w = length (takeWhile isspace s)
      in case List.find (\<lambda>m. match_rest s m \<noteq> None) (rev [1..<Suc w]) of
           None \<Rightarrow> None
         | Some m \<Rightarrow> match_rest s m)"

definition header_match :: "string \<Rightarrow> (string \<times> string) option" where
  "header_match line =
     (let h = min 6 (length (takeWhile (\<lambda>c. c = CHR ''#'') line))
      in case List.find (\<lambda>n. match_space (drop n line) \<noteq> None) (rev [1..<Suc h]) of
           None \<Rightarrow> None
         | Some n \<Rightarrow> map_option (\<lambda>t. (take n line, t)) (match_space (drop n line)))"

text \<open>
  The loop over \<open>enumerate(lines, 1)\<close>: the state is \<open>sections\<close>, \<open>current_section\<close> and
  \<open>current_content\<close>; \<open>i\<close> is the number of the line at the head of the list.
\<close>

definition close_section :: "md_section \<Rightarrow> string list \<Rightarrow> nat \<Rightarrow> md_section" where
  "close_section s current_content e =
     s\<lparr>content := strip (join [newline] current_content), end_line := Some e\<rparr>"

fun extract_loop ::
  "md_section list \<Rightarrow> md_section option \<Rightarrow> string list \<Rightarrow> nat \<Rightarrow> string list
     \<Rightarrow> md_section list \<times> md_section option \<times> string list" where
  "extract_loop sections cur cc i [] = (sections, cur, cc)"
| "extract_loop sections cur cc i (line # rest) =
     (case header_match line of
        Some (hashes, text) \<Rightarrow>
          extract_loop
            (case cur of
               Some s \<Rightarrow> sections @ [close_section s cc (i - 1)]
             | None \<Rightarrow> sections)
            (Some \<lparr>title = strip text, level = length hashes, start_line = i,
                    content = [], end_line = None\<rparr>)
            [] (Suc i) rest
      | None \<Rightarrow> extract_loop sections cur (cc @ [line]) (Suc i) rest)"

definition extract_sections :: "string \<Rightarrow> md_section list" where
  "extract_sections text =
     (let lines = split_on newline text
      in case extract_loop [] None [] 1 lines of
           (sections, cur, cc) \<Rightarrow>
             (case cur of
                Some s \<Rightarrow> sections @ [close_section s cc (length lines)]
              | None \<Rightarrow> sections))"






section \<open>Relevance Ranker (\<open>FileService.find_relevant_sections\<close>)\<close>

text \<open>
  \<open>get_documentation_files\<close> walks the Markdown files under the documentation root. The
  walk is the list of the files in the order \<open>rglob\<close> yields them, each with its relative
  path, its name and the result of \<open>read_text\<close> (\<open>None\<close> when reading raises: the file is
  skipped). A missing root is the empty walk.
\<close>

record doc_file =
  rel_path :: string
  file_name :: string
  read_text :: "string option"

record file_info =
  fi_path :: string
  fi_name :: string
  fi_content :: string
  fi_sections :: "md_section list"
  fi_size :: nat

fun get_documentation_files :: "doc_file list \<Rightarrow> file_info list" where
  "get_documentation_files [] = []"
| "get_documentation_files (d # ds) =
     (case read_text d of
        Some c \<Rightarrow>
          \<lparr>fi_path = rel_path d, fi_name = file_name d, fi_content = c,
           fi_sections = extract_sections c, fi_size = length c\<rparr> # get_documentation_files ds
      | None \<Rightarrow> get_documentation_files ds)"

text \<open>An entry of \<open>relevant_sections\<close>.\<close>

record ranked =
  r_file_path :: string
  r_section :: md_section
  relevance_score :: nat
  r_content :: string

text \<open>
  \<open>sum(1 for keyword in keywords if keyword in section_text)\<close> with
  \<open>section_text = f"{section['title']} {section['content']}".lower()\<close>.
\<close>

definition section_text :: "md_section \<Rightarrow> string" where
  "section_text s = lower (title s @ '' '' @ content s)"

definition relevance :: "string list \<Rightarrow> md_section \<Rightarrow> nat" where
  "relevance keywords s = length (filter (\<lambda>keyword. contains (section_text s) keyword) keywords)"

text \<open>The inner loop over the sections of one file and the outer loop over the files.\<close>

fun scan_sections ::
  "string list \<Rightarrow> file_info \<Rightarrow> ranked list \<Rightarrow> md_section list \<Rightarrow> ranked list" where
  "scan_sections keywords f relevant_sections [] = relevant_sections"
| "scan_sections keywords f relevant_sections (s # ss) =
     (if relevance keywords s > 0
      then scan_sections keywords f
             (relevant_sections @
                [\<lparr>r_file_path = fi_path f, r_section = s,
                  relevance_score = relevance keywords s, r_content = fi_content f\<rparr>]) ss
      else scan_sections keywords f relevant_sections ss)"

fun scan_files :: "string list \<Rightarrow> ranked list \<Rightarrow> file_info list \<Rightarrow> ranked list" where
  "scan_files keywords relevant_sections [] = relevant_sections"
| "scan_files keywords relevant_sections (f # fs) =
     scan_files keywords (scan_sections keywords f relevant_sections (fi_sections f)) fs"

text \<open>
  \<open>relevant_sections.sort(key=..., reverse=True)\<close>: Python's sort is stable, also when
  reversed, so the entries are ordered by falling score and entries of equal score keep
  their order. That is the stable insertion sort on the negated score.
\<close>

definition sort_by_score_desc :: "ranked list \<Rightarrow> ranked list" where
  "sort_by_score_desc rs = sort_key (\<lambda>r. - int (relevance_score r)) rs"

definition find_relevant_sections :: "string \<Rightarrow> file_info list \<Rightarrow> ranked list" where
  "find_relevant_sections query files =
     (let query_lower = lower query;
          keywords = split_ws query_lower;
          relevant_sections = scan_files keywords [] files
      in take 10 (sort_by_score_desc relevant_sections))"

text \<open>
  The vocabulary of the ranking properties. \<open>encounter\<close> lists every section of the corpus
  in encounter order (file order, then section order within the file) with its score.
  \<open>claimed_score\<close> is the score read word for word from the specification: the keywords
  found in the lower-cased title directly followed by the body.
\<close>

definition entry :: "string list \<Rightarrow> file_info \<Rightarrow> md_section \<Rightarrow> ranked" where
  "entry keywords f s =
     \<lparr>r_file_path = fi_path f, r_section = s, relevance_score = relevance keywords s,
      r_content = fi_content f\<rparr>"

definition encounter :: "string \<Rightarrow> file_info list \<Rightarrow> ranked list" where
  "encounter query files =
     concat (map (\<lambda>f. map (entry (split_ws (lower query)) f) (fi_sections f)) files)"

definition claimed_score :: "string \<Rightarrow> md_section \<Rightarrow> nat" where
  "claimed_score query s =
     length (filter (\<lambda>keyword. contains (lower (title s @ content s)) keyword)
               (split_ws (lower query)))"

section \<open>Suggestion Synthesizer (\<open>AIService\<close>)\<close>

text \<open>
  A suggestion built by the program itself is a dictionary with the five keys \<open>id\<close>,
  \<open>section\<close>, \<open>suggestion\<close>, \<open>file_path\<close> and \<open>line_number\<close>; such a dictionary is a record.
\<close>

record sugg =
  s_id :: int
  s_section :: string
  s_suggestion :: string
  s_file_path :: "string option"
  s_line_number :: "int option"

text \<open>\<open>_get_fallback_suggestions(query)\<close>.\<close>

definition get_fallback_suggestions :: "string \<Rightarrow> sugg list" where
  "get_fallback_suggestions query =
     [\<lparr>s_id = 1, s_section = ''General'',
       s_suggestion = ''Review and update documentation based on: '' @ query,
       s_file_path = Some ''README.md'', s_line_number = None\<rparr>,
      \<lparr>s_id = 2, s_section = ''Usage'',
       s_suggestion =
         ''Update usage examples and code snippets to reflect the changes mentioned in the query.'',
       s_file_path = Some ''docs/usage.md'', s_line_number = None\<rparr>]"

subsection \<open>The structured text parser (\<open>_parse_text_suggestions\<close>)\<close>

text \<open>
  \<open>line.startswith(("1.", "2.", "3.", "4.", "5.")) or line.startswith("-")\<close>, and the
  body \<open>line[line.find(".") + 1:].strip() if "." in line else line[1:].strip()\<close>.
\<close>

definition starts_item :: "string \<Rightarrow> bool" where
  "starts_item line =
     (list_ex (\<lambda>m. prefix m line) [''1.'', ''2.'', ''3.'', ''4.'', ''5.''] \<or> prefix ''-'' line)"

definition item_text :: "string \<Rightarrow> string" where
  "item_text line =
     (if CHR ''.'' \<in> set line then strip (drop (find_char (CHR ''.'') line + 1) line)
      else strip (drop 1 line))"

text \<open>
  The loop over the lines: the state is \<open>suggestions\<close> and \<open>current_suggestion\<close>. The id of
  a new suggestion is \<open>len(suggestions) + 1\<close>, read after the open suggestion was appended.
\<close>

definition flush :: "sugg list \<Rightarrow> sugg option \<Rightarrow> sugg list" where
  "flush suggestions cur = (case cur of Some c \<Rightarrow> suggestions @ [c] | None \<Rightarrow> suggestions)"

fun parse_text_loop :: "sugg list \<Rightarrow> sugg option \<Rightarrow> string list \<Rightarrow> sugg list \<times> sugg option" where
  "parse_text_loop suggestions cur [] = (suggestions, cur)"
| "parse_text_loop suggestions cur (raw # rest) =
     (let line = strip raw
      in if starts_item line
         then parse_text_loop (flush suggestions cur)
                (Some \<lparr>s_id = int (length (flush suggestions cur)) + 1, s_section = ''General'',
                        s_suggestion = item_text line, s_file_path = None,
                        s_line_number = None\<rparr>)
                rest
         else if cur \<noteq> None \<and> line \<noteq> []
         then parse_text_loop suggestions
                (map_option (\<lambda>c. c\<lparr>s_suggestion := s_suggestion c @ '' '' @ line\<rparr>) cur) rest
         else parse_text_loop suggestions cur rest)"

definition parse_text_suggestions :: "string \<Rightarrow> sugg list" where
  "parse_text_suggestions text =
     (case parse_text_loop [] None (split_on newline text) of
        (suggestions, cur) \<Rightarrow>
          (if flush suggestions cur \<noteq> [] then flush suggestions cur
           else get_fallback_suggestions ''general update''))"

subsection \<open>Values decoded from the model's answer\<close>

text \<open>
  What \<open>json.loads\<close> returns is any JSON value; a dictionary is the list of its items
  (keys distinct, in insertion order). \<open>as_dict\<close> is the dictionary of a suggestion the
  program built.
\<close>

datatype pyval =
    PNone
  | PBool bool
  | PInt int
  | PFloat real
  | PStr string
  | PList "pyval list"
  | PDict "(string \<times> pyval) list"

text \<open>
  What the program can see raised. The exceptions of \<open>error\<close> derive from \<open>Exception\<close>;
  those of \<open>base_exception\<close> derive from \<open>BaseException\<close> only, so an
  \<open>except Exception\<close> clause does not catch them.
\<close>

datatype error =
    AttributeError
  | TypeError
  | JSONDecodeError
  | OSError string
  | ModelCallError string

datatype base_exception = CancelledError | KeyboardInterrupt | SystemExit

datatype raised = Exc error | BaseExc base_exception

definition as_dict :: "sugg \<Rightarrow> pyval" where
  "as_dict s =
     PDict [(''id'', PInt (s_id s)), (''section'', PStr (s_section s)),
            (''suggestion'', PStr (s_suggestion s)),
            (''file_path'', case s_file_path s of None \<Rightarrow> PNone | Some p \<Rightarrow> PStr p),
            (''line_number'', case s_line_number s of None \<Rightarrow> PNone | Some n \<Rightarrow> PInt n)]"

text \<open>\<open>d.get(key, default)\<close> and the truth value of a Python value.\<close>

definition py_get :: "(string \<times> pyval) list \<Rightarrow> string \<Rightarrow> pyval \<Rightarrow> pyval" where
  "py_get d key dflt = (case map_of d key of Some v \<Rightarrow> v | None \<Rightarrow> dflt)"

fun truthy :: "pyval \<Rightarrow> bool" where
  "truthy PNone = False"
| "truthy (PBool b) = b"
| "truthy (PInt i) = (i \<noteq> 0)"
| "truthy (PFloat x) = (x \<noteq> 0)"
| "truthy (PStr s) = (s \<noteq> [])"
| "truthy (PList xs) = (xs \<noteq> [])"
| "truthy (PDict d) = (d \<noteq> [])"

subsection \<open>Parsing the answer (\<open>_parse_suggestions\<close>)\<close>

text \<open>
  \<open>re.search(r"\[.*\]", content, re.DOTALL)\<close>: the search tries the start positions from
  the left; at an opening bracket, \<open>.*\<close> takes the whole rest of the text and gives
  characters back until a closing bracket follows. The result is the matched text.
\<close>

definition greedy_close :: "string \<Rightarrow> string option" where
  "greedy_close cs =
     map_option (\<lambda>n. take n cs)
       (List.find (\<lambda>n. cs ! (n - 1) = CHR '']'') (rev [1..<Suc (length cs)]))"

fun re_search_array :: "string \<Rightarrow> string option" where
  "re_search_array [] = None"
| "re_search_array (c # cs) =
     (if c = CHR ''[''
      then (case greedy_close cs of
              Some m \<Rightarrow> Some (c # m)
            | None \<Rightarrow> re_search_array cs)
      else re_search_array cs)"

text \<open>
  \<open>json.loads\<close> is a parameter: on the matched text, which starts with an opening
  bracket, it raises or returns a list. The answer of the model can be \<open>None\<close>
  (\<open>message.content\<close> is optional); \<open>re.search\<close> then raises a \<open>TypeError\<close>. What
  \<open>re.search\<close>, \<open>json.loads\<close> and the text parser raise derives from \<open>Exception\<close>, so
  every exception inside this \<open>try\<close> ends in its \<open>except Exception\<close> branch.
\<close>

definition parse_attempt ::
  "(string \<Rightarrow> error + pyval list) \<Rightarrow> string option \<Rightarrow> error + pyval list" where
  "parse_attempt loads answer =
     (case answer of
        None \<Rightarrow> Inl TypeError
      | Some c \<Rightarrow>
          (case re_search_array c of
             Some json_match \<Rightarrow> loads json_match
           | None \<Rightarrow> Inr (map as_dict (parse_text_suggestions c))))"

definition parse_suggestions ::
  "(string \<Rightarrow> error + pyval list) \<Rightarrow> string option \<Rightarrow> pyval list" where
  "parse_suggestions loads answer =
     (case parse_attempt loads answer of
        Inr suggestions \<Rightarrow> suggestions
      | Inl e \<Rightarrow> map as_dict (get_fallback_suggestions ''general update''))"

subsection \<open>Context and post-processing\<close>

text \<open>\<open>_build_context\<close>: four lines for each of the first five ranked sections.\<close>

definition context_parts :: "ranked \<Rightarrow> string list" where
  "context_parts item =
     [''File: '' @ r_file_path item,
      ''Section: '' @ title (r_section item),
      ''Content: '' @ take 200 (content (r_section item)) @ ''...'',
      ''---'']"

definition build_context :: "ranked list \<Rightarrow> string" where
  "build_context relevant_sections =
     (if relevant_sections = [] then []
      else join [newline] (concat (map context_parts (take 5 relevant_sections))))"

text \<open>
  \<open>_enhance_suggestions_with_files\<close>: the dictionary \<open>section_to_file\<close> is filled from every
  entry of \<open>relevant_sections\<close>, a later entry replacing an earlier one with the same
  lower-cased title. A suggestion that is no dictionary has no \<open>get\<close>, and a section that
  is no text has no \<open>lower\<close>: both raise an \<open>AttributeError\<close>.
\<close>

fun section_to_file :: "(string \<rightharpoonup> string) \<Rightarrow> ranked list \<Rightarrow> (string \<rightharpoonup> string)" where
  "section_to_file m [] = m"
| "section_to_file m (item # rest) =
     section_to_file (m(lower (title (r_section item)) \<mapsto> r_file_path item)) rest"

definition enhance_one :: "(string \<rightharpoonup> string) \<Rightarrow> pyval \<Rightarrow> error + pyval" where
  "enhance_one m suggestion =
     (case suggestion of
        PDict d \<Rightarrow>
          (case py_get d ''section'' (PStr []) of
             PStr t \<Rightarrow>
               (case m (lower t) of
                  Some p \<Rightarrow>
                    (if \<not> truthy (py_get d ''file_path'' PNone)
                     then Inr (PDict (AList.update ''file_path'' (PStr p) d))
                     else Inr suggestion)
                | None \<Rightarrow> Inr suggestion)
           | _ \<Rightarrow> Inl AttributeError)
      | _ \<Rightarrow> Inl AttributeError)"

fun enhance_loop :: "(string \<rightharpoonup> string) \<Rightarrow> pyval list \<Rightarrow> error + pyval list" where
  "enhance_loop m [] = Inr []"
| "enhance_loop m (s # ss) =
     (case enhance_one m s of
        Inl e \<Rightarrow> Inl e
      | Inr s' \<Rightarrow> (case enhance_loop m ss of Inl e \<Rightarrow> Inl e | Inr ss' \<Rightarrow> Inr (s' # ss')))"

definition enhance_suggestions_with_files :: "pyval list \<Rightarrow> ranked list \<Rightarrow> error + pyval list" where
  "enhance_suggestions_with_files suggestions relevant_sections =
     enhance_loop (section_to_file Map.empty relevant_sections) suggestions"

subsection \<open>\<open>generate_doc_suggestions\<close>\<close>

definition system_prompt :: string where
  "system_prompt =
      ''You are an expert technical writer and documentation specialist. \<newline>'' @
      ''            Your task is to analyze documentation update requests and provide specific, actionable suggestions.\<newline>'' @
      ''            \<newline>'' @
      ''            For each suggestion, provide:\<newline>'' @
      ''            - A clear description of what needs to be changed\<newline>'' @
      ''            - The specific section or area that needs updating\<newline>'' @
      ''            - The rationale for the change\<newline>'' @
      ''            - The file path where the change should be made (if you can determine it)\<newline>'' @
      ''            \<newline>'' @
      ''            Format your response as a JSON array of objects with these fields:\<newline>'' @
      ''            - id: unique identifier (number)\<newline>'' @
      ''            - section: the section name or area\<newline>'' @
      ''            - suggestion: detailed description of the suggested change\<newline>'' @
      ''            - file_path: suggested file path (if applicable)\<newline>'' @
      ''            - line_number: suggested line number (if applicable)\<newline>'' @
      ''            \<newline>'' @
      ''            Be specific and actionable in your suggestions. If you can identify specific files or sections that need updating, include that information.''"

definition user_prompt :: "string \<Rightarrow> string \<Rightarrow> string" where
  "user_prompt query context =
      ''\<newline>            User Query: '' @ query @
      ''\<newline>            \<newline>            Relevant Documentation Context:\<newline>            '' @
      (if context \<noteq> [] then context else ''No specific documentation content found.'') @
      ''\<newline>            \<newline>'' @
      ''            Please provide suggestions for updating the documentation based on this query.\<newline>'' @
      ''            Focus on the most relevant sections and provide specific, actionable recommendations.\<newline>'' @
      ''            ''"

text \<open>
  The model capability is a function from the two prompts to the outcome of
  \<open>client.chat.completions.create(...)\<close> followed by \<open>response.choices[0].message.content\<close>:
  whatever it raises, or the content, which is a text or \<open>None\<close>. The corpus walk of
  \<open>get_documentation_files\<close> (\<open>exists\<close> and \<open>rglob\<close>, outside the \<open>try\<close> that guards each
  \<open>read_text\<close>) is the list of the files, or the \<open>OSError\<close> it raises; it is read inside
  the \<open>try\<close> of \<open>generate_doc_suggestions\<close>, by \<open>find_relevant_sections\<close>. Building the
  context and the prompts works on the ranker's own records and raises nothing.
  \<open>attempt\<close> is the body of the \<open>try\<close>.
\<close>

type_synonym client = "string \<Rightarrow> string \<Rightarrow> raised + string option"

definition prompt_of :: "string \<Rightarrow> doc_file list \<Rightarrow> string" where
  "prompt_of query docs =
     user_prompt query
       (build_context (find_relevant_sections query (get_documentation_files docs)))"

definition attempt ::
  "client \<Rightarrow> (string \<Rightarrow> error + pyval list) \<Rightarrow> string \<Rightarrow> error + doc_file list
     \<Rightarrow> raised + pyval list" where
  "attempt create loads query walk =
     (case walk of
        Inl e \<Rightarrow> Inl (Exc e)
      | Inr docs \<Rightarrow>
          (let relevant_sections = find_relevant_sections query (get_documentation_files docs);
               context = build_context relevant_sections
           in case create system_prompt (user_prompt query context) of
                Inl r \<Rightarrow> Inl r
              | Inr answer \<Rightarrow>
                  (case enhance_suggestions_with_files (parse_suggestions loads answer)
                          relevant_sections of
                     Inl e \<Rightarrow> Inl (Exc e)
                   | Inr suggs \<Rightarrow> Inr suggs)))"

text \<open>The calls made to the model during \<open>attempt\<close>: none when the walk raises, else one.\<close>

definition calls_made :: "string \<Rightarrow> error + doc_file list \<Rightarrow> (string \<times> string) list" where
  "calls_made query walk =
     (case walk of Inl e \<Rightarrow> [] | Inr docs \<Rightarrow> [(system_prompt, prompt_of query docs)])"

text \<open>
  The result carries the suggestions and the calls made to the model (the prompts sent).
  \<open>except Exception\<close> catches the exceptions of \<open>error\<close> and returns the fallback set for
  the query; an exception that derives from \<open>BaseException\<close> only leaves the function
  (\<open>Inl\<close>).
\<close>

record synthesis =
  suggestions :: "pyval list"
  model_calls :: "(string \<times> string) list"

definition generate_doc_suggestions ::
  "client option \<Rightarrow> (string \<Rightarrow> error + pyval list) \<Rightarrow> string \<Rightarrow> error + doc_file list
     \<Rightarrow> base_exception + synthesis" where
  "generate_doc_suggestions the_client loads query walk =
     (case the_client of
        None \<Rightarrow>
          Inr \<lparr>suggestions = map as_dict (get_fallback_suggestions query), model_calls = []\<rparr>
      | Some create \<Rightarrow>
          (case attempt create loads query walk of
             Inr suggs \<Rightarrow>
               Inr \<lparr>suggestions = suggs, model_calls = calls_made query walk\<rparr>
           | Inl (Exc e) \<Rightarrow>
               Inr \<lparr>suggestions = map as_dict (get_fallback_suggestions query),
                    model_calls = calls_made query walk\<rparr>
           | Inl (BaseExc b) \<Rightarrow> Inl b))"

text \<open>
  The vocabulary of the post-processing property: the file path a suggestion receives
  when the lookup goes through every ranked section, the last section with the
  lower-cased title winning; a suggestion whose \<open>file_path\<close> is true is left as it is.
\<close>

definition path_for :: "ranked list \<Rightarrow> string \<Rightarrow> string option" where
  "path_for ranked_sections t =
     map_option r_file_path
       (List.find (\<lambda>r. lower (title (r_section r)) = lower t) (rev ranked_sections))"

definition fill_file_path :: "ranked list \<Rightarrow> pyval \<Rightarrow> pyval" where
  "fill_file_path ranked_sections s =
     (case s of
        PDict d \<Rightarrow>
          (case py_get d ''section'' (PStr []) of
             PStr t \<Rightarrow>
               (if truthy (py_get d ''file_path'' PNone) then s
                else (case path_for ranked_sections t of
                        Some p \<Rightarrow> PDict (AList.update ''file_path'' (PStr p) d)
                      | None \<Rightarrow> s))
           | _ \<Rightarrow> s)
      | _ \<Rightarrow> s)"

definition well_formed :: "pyval \<Rightarrow> bool" where
  "well_formed s =
     (case s of
        PDict d \<Rightarrow> (case py_get d ''section'' (PStr []) of PStr t \<Rightarrow> True | _ \<Rightarrow> False)
      | _ \<Rightarrow> False)"

section \<open>Backup-and-Apply Engine (\<open>FileService.apply_suggestions\<close>)\<close>

text \<open>
  The suggestions come from the route, which builds each dictionary from a validated
  \<open>DocSuggestion\<close>: the five keys are present, \<open>id\<close> is an integer, \<open>section\<close> and
  \<open>suggestion\<close> are texts, \<open>file_path\<close> and \<open>line_number\<close> are optional. They are values of
  the record \<open>sugg\<close>.

  The file system is a map from paths to stored contents (the decoded characters of the
  file, line ends as stored), and the number of clock readings made so far. What the
  program takes from its environment is a record: the two directories, the operations of
  \<open>pathlib\<close> on paths, the text \<open>datetime.now().strftime(format)\<close> gives at the k-th
  reading of the clock, for each file operation whether it raises, with the message of
  the exception, what a \<open>write_text\<close> that raises leaves in the file (\<open>None\<close>: the file
  is untouched; a text: the file was opened, which truncates it, and holds what was
  written before the failure), and the translation \<open>write_text\<close> applies to the line
  feeds of the text it stores (none where \<open>os.linesep\<close> is the line feed).

  \<open>read_text\<close> opens the file in text mode with universal newlines: every CR LF pair
  and every other CR of the stored content is read as one LF.
\<close>

definition carriage_return :: char where
  "carriage_return = CHR 0x0D"

fun universal_newlines :: "string \<Rightarrow> string" where
  "universal_newlines [] = []"
| "universal_newlines [c] = [if c = carriage_return then newline else c]"
| "universal_newlines (c # d # cs) =
     (if c = carriage_return \<and> d = newline then newline # universal_newlines cs
      else if c = carriage_return then newline # universal_newlines (d # cs)
      else c # universal_newlines (d # cs))"

record world =
  fs_files :: "string \<rightharpoonup> string"
  fs_ticks :: nat

record environment =
  docs_root :: string
  backup_dir :: string
  join_path :: "string \<Rightarrow> string \<Rightarrow> string"
  stem :: "string \<Rightarrow> string"
  suffix :: "string \<Rightarrow> string"
  strftime_now :: "nat \<Rightarrow> string \<Rightarrow> string"
  copy_raises :: "string \<Rightarrow> string \<Rightarrow> string option"
  read_raises :: "string \<Rightarrow> string option"
  write_raises :: "string \<Rightarrow> string option"
  failed_write_leaves :: "string \<Rightarrow> string option"
  write_newlines :: "string \<Rightarrow> string"

record success_entry =
  ok_suggestion_id :: int
  ok_file_path :: string
  ok_message :: string

record error_entry =
  err_suggestion_id :: int
  err_error :: string

record apply_results =
  success :: "success_entry list"
  errors :: "error_entry list"
  backups :: "string list"

text \<open>
  \<open>_create_backup\<close>: the backup is named \<open>stem_timestamp suffix\<close> in the backup
  directory; \<open>shutil.copy2\<close> raises (\<open>Inl\<close> the message) or stores the content under the
  backup path.
\<close>

definition create_backup :: "environment \<Rightarrow> world \<Rightarrow> string \<Rightarrow> (string + string) \<times> world" where
  "create_backup env w file_path =
     (let timestamp = strftime_now env (fs_ticks w) ''%Y%m%d_%H%M%S'';
          w1 = w\<lparr>fs_ticks := Suc (fs_ticks w)\<rparr>;
          backup_name = stem env file_path @ ''_'' @ timestamp @ suffix env file_path;
          backup_path = join_path env (backup_dir env) backup_name
      in case copy_raises env file_path backup_path of
           Some msg \<Rightarrow> (Inl msg, w1)
         | None \<Rightarrow>
             (Inr backup_path,
              w1\<lparr>fs_files := (fs_files w1)(backup_path := fs_files w1 file_path)\<rparr>))"

text \<open>\<open>_apply_suggestion_to_content\<close>: the comment block is appended to the content.\<close>

definition comment_block :: "string \<Rightarrow> sugg \<Rightarrow> string" where
  "comment_block timestamp suggestion =
     [newline, newline] @ ''<!-- TODO: '' @ timestamp @ '' - '' @ s_section suggestion @ '' -->'' @
     [newline] @ ''<!-- Suggestion: '' @ s_suggestion suggestion @ '' -->'' @ [newline]"

definition apply_suggestion_to_content ::
  "environment \<Rightarrow> world \<Rightarrow> string \<Rightarrow> sugg \<Rightarrow> string \<times> world" where
  "apply_suggestion_to_content env w text suggestion =
     (let suggestion_text = s_suggestion suggestion;
          section_label = s_section suggestion;
          timestamp = strftime_now env (fs_ticks w) ''%Y-%m-%d %H:%M:%S'';
          comment = comment_block timestamp suggestion
      in (text @ comment, w\<lparr>fs_ticks := Suc (fs_ticks w)\<rparr>))"

text \<open>
  \<open>_apply_single_suggestion\<close>: every exception of the read or of the write is caught
  (its message is printed) and the result is \<open>False\<close>. Reading a file that does not exist
  raises too. The content is what \<open>read_text\<close> returns, with universal newlines; a
  \<open>write_text\<close> that raises leaves what the environment says, and one that returns has
  stored the new content, its line feeds translated.
\<close>

definition apply_single_suggestion :: "environment \<Rightarrow> world \<Rightarrow> string \<Rightarrow> sugg \<Rightarrow> bool \<times> world" where
  "apply_single_suggestion env w file_path suggestion =
     (case read_raises env file_path of
        Some msg \<Rightarrow> (False, w)
      | None \<Rightarrow>
          (case fs_files w file_path of
             None \<Rightarrow> (False, w)
           | Some stored \<Rightarrow>
               (case apply_suggestion_to_content env w (universal_newlines stored) suggestion of
                  (new_content, w1) \<Rightarrow>
                    (case write_raises env file_path of
                       Some msg \<Rightarrow>
                         (False,
                          case failed_write_leaves env file_path of
                            None \<Rightarrow> w1
                          | Some partial \<Rightarrow>
                              w1\<lparr>fs_files := (fs_files w1)(file_path \<mapsto> partial)\<rparr>)
                     | None \<Rightarrow>
                         (True,
                          w1\<lparr>fs_files :=
                               (fs_files w1)(file_path \<mapsto> write_newlines env new_content)\<rparr>)))))"

text \<open>
  The body of the loop of \<open>apply_suggestions\<close> for one suggestion, and the loop. Only
  \<open>_create_backup\<close> can raise inside the \<open>try\<close>; the \<open>except\<close> branch records \<open>str(e)\<close>.
\<close>

definition add_error :: "apply_results \<Rightarrow> sugg \<Rightarrow> string \<Rightarrow> apply_results" where
  "add_error results suggestion msg =
     results\<lparr>errors := errors results @
                [\<lparr>err_suggestion_id = s_id suggestion, err_error = msg\<rparr>]\<rparr>"

definition apply_one ::
  "environment \<Rightarrow> apply_results \<times> world \<Rightarrow> sugg \<Rightarrow> apply_results \<times> world" where
  "apply_one env state suggestion =
     (case state of
        (results, w) \<Rightarrow>
          (case s_file_path suggestion of
             None \<Rightarrow> (add_error results suggestion ''No file path specified'', w)
           | Some file_path \<Rightarrow>
               if file_path = [] then (add_error results suggestion ''No file path specified'', w)
               else
                 (let full_path = join_path env (docs_root env) file_path
                  in if fs_files w full_path = None
                     then (add_error results suggestion (''File not found: '' @ file_path), w)
                     else
                       (case create_backup env w full_path of
                          (Inl msg, w1) \<Rightarrow> (add_error results suggestion msg, w1)
                        | (Inr backup_path, w1) \<Rightarrow>
                            (let results1 = results\<lparr>backups := backups results @ [backup_path]\<rparr>
                             in case apply_single_suggestion env w1 full_path suggestion of
                                  (True, w2) \<Rightarrow>
                                    (results1\<lparr>success := success results1 @
                                        [\<lparr>ok_suggestion_id = s_id suggestion,
                                          ok_file_path = file_path,
                                          ok_message = ''Successfully applied''\<rparr>]\<rparr>, w2)
                                | (False, w2) \<Rightarrow>
                                    (add_error results1 suggestion ''Failed to apply suggestion'',
                                     w2))))))"

fun apply_loop ::
  "environment \<Rightarrow> apply_results \<times> world \<Rightarrow> sugg list \<Rightarrow> apply_results \<times> world" where
  "apply_loop env state [] = state"
| "apply_loop env state (suggestion # rest) = apply_loop env (apply_one env state suggestion) rest"

definition apply_suggestions :: "environment \<Rightarrow> world \<Rightarrow> sugg list \<Rightarrow> apply_results \<times> world" where
  "apply_suggestions env w suggs =
     apply_loop env (\<lparr>success = [], errors = [], backups = []\<rparr>, w) suggs"

text \<open>
  An environment and a file system for the examples: one document \<open>docs/guide.md\<close>, a clock
  that stands still, the given behaviour of the copy and of the write, a failing write
  that leaves the file empty, and line feeds stored as they are.
\<close>

definition example_env ::
  "(string \<Rightarrow> string \<Rightarrow> string option) \<Rightarrow> (string \<Rightarrow> string option) \<Rightarrow> environment" where
  "example_env copy_fails write_fails =
     \<lparr>docs_root = ''docs'', backup_dir = ''backups'',
      join_path = (\<lambda>a b. a @ ''/'' @ b),
      stem = (\<lambda>p. ''guide''), suffix = (\<lambda>p. ''.md''),
      strftime_now =
        (\<lambda>k f. if f = ''%Y%m%d_%H%M%S'' then ''20240101_120000'' else ''2024-01-01 12:00:00''),
      copy_raises = copy_fails, read_raises = (\<lambda>p. None), write_raises = write_fails,
      failed_write_leaves = (\<lambda>p. Some []), write_newlines = (\<lambda>t. t)\<rparr>"

definition example_world :: world where
  "example_world = \<lparr>fs_files = [''docs/guide.md'' \<mapsto> ''# Guide''], fs_ticks = 0\<rparr>"

definition example_suggestion :: sugg where
  "example_suggestion =
     \<lparr>s_id = 7, s_section = ''Intro'', s_suggestion = ''Say hello'',
      s_file_path = Some ''guide.md'', s_line_number = Some 3\<rparr>"

text \<open>The same file system with CR LF line ends in the document.\<close>

definition crlf_world :: world where
  "crlf_world =
     \<lparr>fs_files = [''docs/guide.md'' \<mapsto> ''# Guide'' @ [carriage_return, newline] @ ''text''],
      fs_ticks = 0\<rparr>"

section \<open>Greedy repetition with backtracking\<close>

lemma find_largest_Some:
  "List.find P (rev [1..<Suc n]) = Some m \<longleftrightarrow>
     (1 \<le> m \<and> m \<le> n \<and> P m \<and> (\<forall>k. m < k \<and> k \<le> n \<longrightarrow> \<not> P k))"
proof (induction n)
  case 0
  then show ?case by auto
next
  case (Suc n)
  have r: "rev [1..<Suc (Suc n)] = Suc n # rev [1..<Suc n]" by simp
  show ?case
  proof (cases "P (Suc n)")
    case True
    have "m = Suc n" if "m \<le> Suc n" "\<forall>k. m < k \<and> k \<le> Suc n \<longrightarrow> \<not> P k"
    proof (rule ccontr)
      assume "m \<noteq> Suc n"
      then have "m < Suc n \<and> Suc n \<le> Suc n" using that(1) by simp
      then show False using that(2) True by blast
    qed
    then show ?thesis unfolding r using True by auto
  next
    case False
    have "(\<forall>k. m < k \<and> k \<le> Suc n \<longrightarrow> \<not> P k) \<longleftrightarrow> (\<forall>k. m < k \<and> k \<le> n \<longrightarrow> \<not> P k)"
      using False by (auto simp: le_Suc_eq)
    moreover have "m \<le> Suc n \<and> P m \<longleftrightarrow> m \<le> n \<and> P m"
      using False by (auto simp: le_Suc_eq)
    ultimately show ?thesis unfolding r using False Suc.IH by auto
  qed
qed

lemma find_largest_None:
  "List.find P (rev [1..<Suc n]) = None \<longleftrightarrow> (\<forall>k. 1 \<le> k \<and> k \<le> n \<longrightarrow> \<not> P k)"
proof -
  have "set (rev [1..<Suc n]) = {k. 1 \<le> k \<and> k \<le> n}" by (simp only: set_rev set_upt) auto
  then show ?thesis unfolding find_None_iff by blast
qed


lemma find_largest_not_None:
  "List.find P (rev [1..<Suc n]) \<noteq> None \<longleftrightarrow> (\<exists>k. 1 \<le> k \<and> k \<le> n \<and> P k)"
proof -
  have "List.find P (rev [1..<Suc n]) \<noteq> None \<longleftrightarrow> \<not> (\<forall>k. 1 \<le> k \<and> k \<le> n \<longrightarrow> \<not> P k)"
    unfolding find_largest_None ..
  also have "\<dots> \<longleftrightarrow> (\<exists>k. 1 \<le> k \<and> k \<le> n \<and> P k)" by auto
  finally show ?thesis .
qed

lemma find_largest_holds:
  "List.find P (rev [1..<Suc n]) = Some m \<Longrightarrow> P m"
  using find_largest_Some [of P n m] by blast

lemma take_takeWhile:
  assumes "n \<le> length (takeWhile P xs)"
  shows "take n xs = take n (takeWhile P xs) \<and> (\<forall>c \<in> set (take n xs). P c)"
proof -
  have "take n xs = take n (takeWhile P xs @ dropWhile P xs)" by simp
  also have "\<dots> = take n (takeWhile P xs)" using assms by (simp del: takeWhile_dropWhile_id)
  finally have e: "take n xs = take n (takeWhile P xs)" .
  have "\<forall>c \<in> set (take n (takeWhile P xs)). P c"
    by (auto dest: in_set_takeD set_takeWhileD)
  then show ?thesis using e by simp
qed


section \<open>Properties of the Section Extractor\<close>











lemma split_on_nonempty: "split_on d s \<noteq> []"
  by (induction s) (auto split: list.splits)




text \<open>
  C5. A hash followed by two spaces matches the heading pattern: \<open>\s+\<close> gives one
  space back to \<open>(.+)\<close>, the title is trimmed to the empty text, and a section with
  an empty title is opened. A hash followed by one space does not match.
\<close>

theorem header_empty_title:
  "header_match ''#  '' = Some (''#'', '' '') \<and> header_match ''# '' = None \<and>
   extract_sections ''#  '' =
     [\<lparr>title = [], level = 1, start_line = 1, content = [], end_line = Some 1\<rparr>]"
  by code_simp

lemma match_space_iff:
  "match_space s \<noteq> None \<longleftrightarrow>
     (\<exists>m. 1 \<le> m \<and> m \<le> length (takeWhile isspace s) \<and> drop m s \<noteq> [] \<and> newline \<notin> set (drop m s))"
proof -
  let ?P = "\<lambda>m. match_rest s m \<noteq> None"
  let ?f = "List.find ?P (rev [1..<Suc (length (takeWhile isspace s))])"
  have P: "?P m \<longleftrightarrow> drop m s \<noteq> [] \<and> newline \<notin> set (drop m s)" for m
    by (simp add: match_rest_def Let_def)
  have "match_space s \<noteq> None \<longleftrightarrow> ?f \<noteq> None"
  proof (cases ?f)
    case None
    show ?thesis unfolding match_space_def Let_def None by simp
  next
    case (Some m)
    then have "?P m" by (rule find_largest_holds)
    then show ?thesis unfolding match_space_def Let_def Some by simp
  qed
  then show ?thesis unfolding find_largest_not_None P .
qed

lemma header_match_iff_space:
  "header_match line \<noteq> None \<longleftrightarrow>
     (\<exists>n. 1 \<le> n \<and> n \<le> min 6 (length (takeWhile (\<lambda>c. c = CHR ''#'') line)) \<and>
          match_space (drop n line) \<noteq> None)"
proof -
  let ?P = "\<lambda>n. match_space (drop n line) \<noteq> None"
  let ?f = "List.find ?P (rev [1..<Suc (min 6 (length (takeWhile (\<lambda>c. c = CHR ''#'') line)))])"
  have "header_match line \<noteq> None \<longleftrightarrow> ?f \<noteq> None"
  proof (cases ?f)
    case None
    show ?thesis unfolding header_match_def Let_def None by simp
  next
    case (Some n)
    then have "?P n" by (rule find_largest_holds)
    then show ?thesis unfolding header_match_def Let_def Some by simp
  qed
  then show ?thesis unfolding find_largest_not_None .
qed

lemma hash_not_space: "isspace c \<Longrightarrow> c \<noteq> CHR ''#''"
proof
  assume "isspace c" and "c = CHR ''#''"
  then have "isspace (CHR ''#'')" by simp
  then show False by (simp add: isspace_def)
qed

lemma takeWhile_replicate_hash:
  assumes "w \<noteq> []" and "\<forall>c \<in> set w. isspace c"
  shows "takeWhile (\<lambda>c. c = CHR ''#'') (replicate n (CHR ''#'') @ w @ t) = replicate n (CHR ''#'')"
proof -
  obtain a w' where w: "w = a # w'" using assms(1) by (cases w) auto
  then have "a \<noteq> CHR ''#''" using assms(2) hash_not_space by auto
  then show ?thesis using w by (simp add: takeWhile_append)
qed

text \<open>
  What the heading pattern accepts: one to six hashes, then at least one whitespace
  character, then at least one more character. Nothing requires that last part to hold
  a character that is not whitespace.
\<close>

theorem header_match_accepts:
  "header_match line \<noteq> None \<longleftrightarrow>
     (\<exists>n w t. 1 \<le> n \<and> n \<le> 6 \<and> line = replicate n (CHR ''#'') @ w @ t \<and>
        w \<noteq> [] \<and> list_all isspace w \<and> t \<noteq> [] \<and> newline \<notin> set t)"
proof
  assume "header_match line \<noteq> None"
  then obtain n where n: "1 \<le> n" "n \<le> min 6 (length (takeWhile (\<lambda>c. c = CHR ''#'') line))"
    and ms: "match_space (drop n line) \<noteq> None"
    unfolding header_match_iff_space by blast
  from ms obtain m where m: "1 \<le> m" "m \<le> length (takeWhile isspace (drop n line))"
    "drop m (drop n line) \<noteq> []" "newline \<notin> set (drop m (drop n line))"
    unfolding match_space_iff by blast
  let ?s = "drop n line"
  have hashes: "take n line = replicate n (CHR ''#'')"
  proof -
    have le: "n \<le> length (takeWhile (\<lambda>c. c = CHR ''#'') line)" using n(2) by simp
    then have "\<forall>c \<in> set (take n line). c = CHR ''#''"
      using take_takeWhile [of n "\<lambda>c. c = CHR ''#''" line] by blast
    then have "replicate (length (take n line)) (CHR ''#'') = take n line"
      by (rule replicate_length_same)
    moreover have "length (take n line) = n"
      using le length_takeWhile_le [of "\<lambda>c. c = CHR ''#''" line] by simp
    ultimately show ?thesis by simp
  qed
  have w: "list_all isspace (take m ?s)"
    using take_takeWhile [of m isspace ?s] m(2) unfolding list_all_iff by blast
  have "m \<le> length ?s" using m(2) length_takeWhile_le [of isspace ?s] by simp
  then have "take m ?s \<noteq> []" using m(1) by auto
  moreover have "line = replicate n (CHR ''#'') @ take m ?s @ drop m ?s"
    using hashes by (metis append_take_drop_id)
  moreover have "n \<le> 6" using n(2) by simp
  ultimately show "\<exists>n w t. 1 \<le> n \<and> n \<le> 6 \<and> line = replicate n (CHR ''#'') @ w @ t \<and>
        w \<noteq> [] \<and> list_all isspace w \<and> t \<noteq> [] \<and> newline \<notin> set t"
    using n(1) w m(3,4) by blast
next
  assume "\<exists>n w t. 1 \<le> n \<and> n \<le> 6 \<and> line = replicate n (CHR ''#'') @ w @ t \<and>
        w \<noteq> [] \<and> list_all isspace w \<and> t \<noteq> [] \<and> newline \<notin> set t"
  then obtain n w t where n: "1 \<le> n" "n \<le> 6" and line: "line = replicate n (CHR ''#'') @ w @ t"
    and w: "w \<noteq> []" "list_all isspace w" and t: "t \<noteq> []" "newline \<notin> set t" by blast
  have ws: "\<forall>c \<in> set w. isspace c" using w(2) by (simp add: list_all_iff)
  have tw: "takeWhile (\<lambda>c. c = CHR ''#'') line = replicate n (CHR ''#'')"
    unfolding line using w(1) ws by (rule takeWhile_replicate_hash)
  have d: "drop n line = w @ t" unfolding line by simp
  have "length w \<le> length (takeWhile isspace (w @ t))"
    using ws by (simp add: takeWhile_append)
  moreover have "1 \<le> length w" using w(1) by (cases w) auto
  moreover have "drop (length w) (w @ t) = t" by simp
  ultimately have "\<exists>m. 1 \<le> m \<and> m \<le> length (takeWhile isspace (w @ t)) \<and>
      drop m (w @ t) \<noteq> [] \<and> newline \<notin> set (drop m (w @ t))"
    using t by (intro exI [of _ "length w"]) simp
  then have "match_space (drop n line) \<noteq> None"
    unfolding match_space_iff d .
  moreover have "n \<le> min 6 (length (takeWhile (\<lambda>c. c = CHR ''#'') line))"
    unfolding tw using n(2) by simp
  ultimately show "header_match line \<noteq> None"
    unfolding header_match_iff_space using n(1) by blast
qed

section \<open>Properties of the Relevance Ranker\<close>

lemma scan_sections_eq:
  "scan_sections kw f acc ss = acc @ filter (\<lambda>r. 0 < relevance_score r) (map (entry kw f) ss)"
  by (induction ss arbitrary: acc) (auto simp: entry_def)

lemma scan_files_eq:
  "scan_files kw acc fs =
     acc @ filter (\<lambda>r. 0 < relevance_score r) (concat (map (\<lambda>f. map (entry kw f) (fi_sections f)) fs))"
  by (induction fs arbitrary: acc) (auto simp: scan_sections_eq)

lemma sorted_desc:
  "sorted_wrt (\<lambda>a b. relevance_score b \<le> relevance_score a) (sort_by_score_desc rs)"
proof -
  have "sorted (map (\<lambda>r. - int (relevance_score r)) (sort_by_score_desc rs))"
    unfolding sort_by_score_desc_def by (rule sorted_sort_key)
  then show ?thesis by (simp add: sorted_map)
qed

lemma stable_desc:
  "filter (\<lambda>r. relevance_score r = k) (sort_by_score_desc rs) = filter (\<lambda>r. relevance_score r = k) rs"
proof -
  have "filter (\<lambda>r. - int (relevance_score r) = - int k) (sort_key (\<lambda>r. - int (relevance_score r)) rs)
      = filter (\<lambda>r. - int (relevance_score r) = - int k) rs"
    by (rule sort_key_stable)
  then show ?thesis by (simp add: sort_by_score_desc_def)
qed


lemma find_relevant_sections_eq:
  "find_relevant_sections query files =
     take 10 (sort_by_score_desc (filter (\<lambda>r. 0 < relevance_score r) (encounter query files)))"
  by (simp add: find_relevant_sections_def scan_files_eq encounter_def)

lemma encounter_score:
  "r \<in> set (encounter query files) \<Longrightarrow>
     relevance_score r =
       length (filter (\<lambda>k. contains (lower (title (r_section r) @ '' '' @ content (r_section r))) k)
                 (split_ws (lower query)))"
  by (auto simp: encounter_def entry_def relevance_def section_text_def)

text \<open>
  C1, amended. The score of a section is the number of keywords of the lower-cased,
  whitespace-split query (with multiplicity) that occur in the lower-cased text made of
  the title, one space and the body. The result is the first 10 entries of the list that
  holds exactly the sections of positive score, ordered by falling score, sections of
  equal score in encounter order.
\<close>

theorem find_relevant_sections_ranking:
  assumes "keywords = split_ws (lower query)"
    and "hits = filter (\<lambda>r. 0 < relevance_score r) (encounter query files)"
    and "result = find_relevant_sections query files"
  shows "(\<forall>r \<in> set (encounter query files).
            relevance_score r =
              length (filter (\<lambda>k. contains (lower (title (r_section r) @ '' '' @ content (r_section r))) k)
                        keywords)) \<and>
         (\<exists>full. mset full = mset hits \<and>
            sorted_wrt (\<lambda>a b. relevance_score b \<le> relevance_score a) full \<and>
            (\<forall>k. filter (\<lambda>r. relevance_score r = k) full = filter (\<lambda>r. relevance_score r = k) hits) \<and>
            result = take 10 full) \<and>
         length result \<le> 10"
proof -
  let ?full = "sort_by_score_desc hits"
  have "mset ?full = mset hits" by (simp add: sort_by_score_desc_def)
  moreover have "sorted_wrt (\<lambda>a b. relevance_score b \<le> relevance_score a) ?full"
    by (rule sorted_desc)
  moreover have "\<forall>k. filter (\<lambda>r. relevance_score r = k) ?full = filter (\<lambda>r. relevance_score r = k) hits"
    by (simp add: stable_desc)
  moreover have res: "result = take 10 ?full"
    unfolding assms by (rule find_relevant_sections_eq)
  ultimately have "\<exists>full. mset full = mset hits \<and>
            sorted_wrt (\<lambda>a b. relevance_score b \<le> relevance_score a) full \<and>
            (\<forall>k. filter (\<lambda>r. relevance_score r = k) full = filter (\<lambda>r. relevance_score r = k) hits) \<and>
            result = take 10 full" by blast
  moreover have "length result \<le> 10" using res by simp
  ultimately show ?thesis using encounter_score assms(1) by blast
qed

text \<open>
  C1 as stated fails: for the query \<open>ab\<close> and the document \<open># a\<close>, \<open>b\<close>, the keyword
  occurs in the title directly followed by the body (\<open>ab\<close>), so the claimed score is 1,
  but the program scores the text \<open>a b\<close> and returns nothing.
\<close>

theorem claimed_score_counterexample:
  "extract_sections ''# a\<newline>b'' =
     [\<lparr>title = ''a'', level = 1, start_line = 1, content = ''b'', end_line = Some 2\<rparr>] \<and>
   claimed_score ''ab''
     \<lparr>title = ''a'', level = 1, start_line = 1, content = ''b'', end_line = Some 2\<rparr> = 1 \<and>
   find_relevant_sections ''ab''
     (get_documentation_files
        [\<lparr>rel_path = ''a.md'', file_name = ''a.md'', read_text = Some ''# a\<newline>b''\<rparr>]) = []"
  by code_simp

theorem find_relevant_sections_ranking_witness:
  "map (\<lambda>r. (r_file_path r, title (r_section r), relevance_score r))
     (find_relevant_sections ''API the auth''
        (get_documentation_files
           [\<lparr>rel_path = ''a.md'', file_name = ''a.md'',
              read_text = Some ''# Auth\<newline>the api\<newline># Other\<newline>nothing\<newline># Api\<newline>x''\<rparr>,
            \<lparr>rel_path = ''b.md'', file_name = ''b.md'', read_text = None\<rparr>,
            \<lparr>rel_path = ''c.md'', file_name = ''c.md'', read_text = Some ''# The\<newline>x''\<rparr>])) =
     [(''a.md'', ''Auth'', 3), (''a.md'', ''Other'', 1), (''a.md'', ''Api'', 1), (''c.md'', ''The'', 1)] \<and>
   length
     (find_relevant_sections ''API the auth''
        (get_documentation_files
           [\<lparr>rel_path = ''a.md'', file_name = ''a.md'',
              read_text = Some ''# Auth\<newline>the api\<newline># Other\<newline>nothing\<newline># Api\<newline>x''\<rparr>,
            \<lparr>rel_path = ''b.md'', file_name = ''b.md'', read_text = None\<rparr>,
            \<lparr>rel_path = ''c.md'', file_name = ''c.md'', read_text = Some ''# The\<newline>x''\<rparr>])) \<le> 10"
proof -
  let ?fs = "get_documentation_files
           [\<lparr>rel_path = ''a.md'', file_name = ''a.md'',
              read_text = Some ''# Auth\<newline>the api\<newline># Other\<newline>nothing\<newline># Api\<newline>x''\<rparr>,
            \<lparr>rel_path = ''b.md'', file_name = ''b.md'', read_text = None\<rparr>,
            \<lparr>rel_path = ''c.md'', file_name = ''c.md'', read_text = Some ''# The\<newline>x''\<rparr>]"
  have a: "map (\<lambda>r. (r_file_path r, title (r_section r), relevance_score r))
     (find_relevant_sections ''API the auth'' ?fs) =
     [(''a.md'', ''Auth'', 3), (''a.md'', ''Other'', 1), (''a.md'', ''Api'', 1), (''c.md'', ''The'', 1)]"
    by code_simp
  have b: "length (find_relevant_sections ''API the auth'' ?fs) \<le> 10"
    using find_relevant_sections_ranking [OF refl refl refl, of "''API the auth''" ?fs] by blast
  show ?thesis using a b by (intro conjI)
qed

section \<open>Properties of the Suggestion Synthesizer\<close>

text \<open>
  C3. Without a client the result is the two fallback suggestions for the query, id 1
  for \<open>README.md\<close> and id 2 for \<open>docs/usage.md\<close>, and no call to the model is made.
\<close>

theorem no_client_fallback:
  "generate_doc_suggestions None loads query docs =
     Inr \<lparr>suggestions =
            [PDict [(''id'', PInt 1), (''section'', PStr ''General''),
                    (''suggestion'', PStr (''Review and update documentation based on: '' @ query)),
                    (''file_path'', PStr ''README.md''), (''line_number'', PNone)],
             PDict [(''id'', PInt 2), (''section'', PStr ''Usage''),
                    (''suggestion'',
                     PStr ''Update usage examples and code snippets to reflect the changes mentioned in the query.''),
                    (''file_path'', PStr ''docs/usage.md''), (''line_number'', PNone)]],
          model_calls = []\<rparr>"
  by (simp add: generate_doc_suggestions_def get_fallback_suggestions_def as_dict_def)







text \<open>
  C6. The answer \<open>- fix [a] thing\<close> holds the bracketed text \<open>[a]\<close>, which is no JSON.
  For every decoder that rejects it, \<open>_parse_suggestions\<close> returns the fallback set for
  \<open>general update\<close>; the structured text parser, which its docstring names for this
  case, is not run. It would have produced one suggestion.
\<close>

theorem decode_failure_skips_text_parser:
  assumes "loads ''[a]'' = Inl e"
  shows "re_search_array ''- fix [a] thing'' = Some ''[a]'' \<and>
         parse_suggestions loads (Some ''- fix [a] thing'') =
           map as_dict (get_fallback_suggestions ''general update'') \<and>
         parse_text_suggestions ''- fix [a] thing'' =
           [\<lparr>s_id = 1, s_section = ''General'', s_suggestion = ''fix [a] thing'',
             s_file_path = None, s_line_number = None\<rparr>]"
proof -
  have m: "re_search_array ''- fix [a] thing'' = Some ''[a]''" by code_simp
  have t: "parse_text_suggestions ''- fix [a] thing'' =
           [\<lparr>s_id = 1, s_section = ''General'', s_suggestion = ''fix [a] thing'',
             s_file_path = None, s_line_number = None\<rparr>]" by code_simp
  have "parse_suggestions loads (Some ''- fix [a] thing'') =
           map as_dict (get_fallback_suggestions ''general update'')"
    using assms by (simp only: parse_suggestions_def parse_attempt_def m option.case sum.case)
  then show ?thesis using m t by (intro conjI)
qed

theorem decode_failure_skips_text_parser_witness:
  "parse_suggestions (\<lambda>t. Inl JSONDecodeError) (Some ''- fix [a] thing'') =
     map as_dict (get_fallback_suggestions ''general update'') \<and>
   parse_suggestions (\<lambda>t. Inl JSONDecodeError) (Some ''- fix [a] thing'') \<noteq>
     map as_dict (parse_text_suggestions ''- fix [a] thing'')"
proof -
  have l: "(\<lambda>t :: string. (Inl JSONDecodeError :: error + pyval list)) ''[a]'' = Inl JSONDecodeError"
    by simp
  note th = decode_failure_skips_text_parser [where loads = "\<lambda>t. Inl JSONDecodeError", OF l]
  have "map as_dict (get_fallback_suggestions ''general update'') \<noteq>
     map as_dict (parse_text_suggestions ''- fix [a] thing'')"
    using th by (simp add: get_fallback_suggestions_def)
  then show ?thesis using th by simp
qed

text \<open>
  C7. A dash line that contains a period: the body is what follows the first period, not
  what follows the dash. Without a period the body is what follows the dash.
\<close>

theorem dash_line_with_period:
  "parse_text_suggestions ''- see README.md'' =
     [\<lparr>s_id = 1, s_section = ''General'', s_suggestion = ''md'',
       s_file_path = None, s_line_number = None\<rparr>] \<and>
   parse_text_suggestions ''- see the README'' =
     [\<lparr>s_id = 1, s_section = ''General'', s_suggestion = ''see the README'',
       s_file_path = None, s_line_number = None\<rparr>]"
  by code_simp

lemma map_of_find:
  "map_of (map (\<lambda>r. (k r, v r)) xs) x = map_option v (List.find (\<lambda>r. k r = x) xs)"
  by (induction xs) auto

lemma section_to_file_eq:
  "section_to_file m rs =
     m ++ map_of (rev (map (\<lambda>r. (lower (title (r_section r)), r_file_path r)) rs))"
proof (induction rs arbitrary: m)
  case Nil
  then show ?case by simp
next
  case (Cons r rs)
  let ?M = "map_of (rev (map (\<lambda>r. (lower (title (r_section r)), r_file_path r)) rs))"
  let ?k = "lower (title (r_section r))"
  have "section_to_file m (r # rs) = m(?k \<mapsto> r_file_path r) ++ ?M"
    by (simp only: section_to_file.simps Cons.IH)
  also have "\<dots> = m ++ (map_of [(?k, r_file_path r)] ++ ?M)"
    by (rule ext) (auto simp: map_add_def split: option.splits)
  also have "map_of [(?k, r_file_path r)] ++ ?M =
      map_of (rev (map (\<lambda>r. (lower (title (r_section r)), r_file_path r)) (r # rs)))"
    by (simp only: list.map rev.simps map_of_append)
  finally show ?case .
qed

lemma section_to_file_path_for:
  "section_to_file Map.empty rs (lower t) = path_for rs t"
  using map_of_find [of "\<lambda>r. lower (title (r_section r))" r_file_path "rev rs" "lower t"]
  by (simp add: section_to_file_eq path_for_def rev_map)

lemma enhance_one_fill:
  "well_formed s \<Longrightarrow> enhance_one (section_to_file Map.empty rs) s = Inr (fill_file_path rs s)"
  by (auto simp: well_formed_def enhance_one_def fill_file_path_def section_to_file_path_for
      split: pyval.splits option.splits)

lemma enhance_loop_map:
  "\<forall>s \<in> set ss. enhance_one m s = Inr (f s) \<Longrightarrow> enhance_loop m ss = Inr (map f ss)"
  by (induction ss) auto

lemma build_context_take5: "build_context rs = build_context (take 5 rs)"
  by (cases rs) (simp_all add: build_context_def)

text \<open>
  C10, amended. When the model answers and every parsed suggestion is a dictionary whose
  section is a text, the result is the parsed list with \<open>fill_file_path\<close> applied to each
  suggestion: a suggestion without a true \<open>file_path\<close> receives the file path of the last
  ranked section with its lower-cased section title, looked up among all the ranked
  sections (up to 10), while the prompt is built from the first five; a suggestion with a
  true \<open>file_path\<close> is unchanged.
\<close>

theorem enhance_uses_all_ranked_sections:
  assumes "ranked_sections = find_relevant_sections query (get_documentation_files docs)"
    and "create system_prompt (user_prompt query (build_context ranked_sections)) = Inr answer"
    and "\<forall>s \<in> set (parse_suggestions loads answer). well_formed s"
  shows "generate_doc_suggestions (Some create) loads query (Inr docs) =
           Inr \<lparr>suggestions = map (fill_file_path ranked_sections) (parse_suggestions loads answer),
                model_calls = [(system_prompt, user_prompt query (build_context ranked_sections))]\<rparr> \<and>
         build_context ranked_sections = build_context (take 5 ranked_sections) \<and>
         (\<forall>d. truthy (py_get d ''file_path'' PNone) \<longrightarrow>
            fill_file_path ranked_sections (PDict d) = PDict d)"
proof -
  have e: "enhance_suggestions_with_files (parse_suggestions loads answer) ranked_sections =
      Inr (map (fill_file_path ranked_sections) (parse_suggestions loads answer))"
    unfolding enhance_suggestions_with_files_def
    by (rule enhance_loop_map) (use assms(3) enhance_one_fill in blast)
  have g: "generate_doc_suggestions (Some create) loads query (Inr docs) =
           Inr \<lparr>suggestions = map (fill_file_path ranked_sections) (parse_suggestions loads answer),
                model_calls = [(system_prompt, user_prompt query (build_context ranked_sections))]\<rparr>"
    using assms(2) e
    by (simp add: generate_doc_suggestions_def attempt_def calls_made_def prompt_of_def
        assms(1)[symmetric])
  have u: "fill_file_path ranked_sections (PDict d) = PDict d"
    if "truthy (py_get d ''file_path'' PNone)" for d
    using that by (simp add: fill_file_path_def split: pyval.splits)
  show ?thesis using g u build_context_take5 by blast
qed

theorem enhance_uses_all_ranked_sections_witness:
  "map_sum id suggestions
     (generate_doc_suggestions (Some (\<lambda>s u. Inr (Some ''[two]'')))
        (\<lambda>t. Inr [PDict [(''id'', PInt 1), (''section'', PStr ''INSTALL'')],
                   PDict [(''section'', PStr ''Usage''), (''file_path'', PStr ''keep.md'')]])
        ''install''
        (Inr [\<lparr>rel_path = ''a.md'', file_name = ''a.md'',
               read_text = Some ''# Install\<newline>pip install x\<newline># Usage\<newline>run install''\<rparr>])) =
     Inr [PDict [(''id'', PInt 1), (''section'', PStr ''INSTALL''), (''file_path'', PStr ''a.md'')],
          PDict [(''section'', PStr ''Usage''), (''file_path'', PStr ''keep.md'')]]"
proof -
  let ?docs = "[\<lparr>rel_path = ''a.md'', file_name = ''a.md'',
          read_text = Some ''# Install\<newline>pip install x\<newline># Usage\<newline>run install''\<rparr>]"
  let ?loads = "\<lambda>t :: string. (Inr [PDict [(''id'', PInt 1), (''section'', PStr ''INSTALL'')],
                   PDict [(''section'', PStr ''Usage''), (''file_path'', PStr ''keep.md'')]]
                 :: error + pyval list)"
  let ?create = "\<lambda>(s :: string) (u :: string). (Inr (Some ''[two]'') :: raised + string option)"
  have m: "re_search_array ''[two]'' = Some ''[two]''" by code_simp
  have p: "parse_suggestions ?loads (Some ''[two]'') =
      [PDict [(''id'', PInt 1), (''section'', PStr ''INSTALL'')],
       PDict [(''section'', PStr ''Usage''), (''file_path'', PStr ''keep.md'')]]"
    by (simp only: parse_suggestions_def parse_attempt_def m option.case sum.case)
  have w: "\<forall>s \<in> set (parse_suggestions ?loads (Some ''[two]'')). well_formed s"
    unfolding p by (simp add: well_formed_def py_get_def)
  have f: "map (fill_file_path (find_relevant_sections ''install'' (get_documentation_files ?docs)))
       [PDict [(''id'', PInt 1), (''section'', PStr ''INSTALL'')],
        PDict [(''section'', PStr ''Usage''), (''file_path'', PStr ''keep.md'')]] =
      [PDict [(''id'', PInt 1), (''section'', PStr ''INSTALL''), (''file_path'', PStr ''a.md'')],
       PDict [(''section'', PStr ''Usage''), (''file_path'', PStr ''keep.md'')]]"
    by code_simp
  have c: "?create system_prompt
      (user_prompt ''install''
         (build_context (find_relevant_sections ''install'' (get_documentation_files ?docs)))) =
      Inr (Some ''[two]'')" by simp
  note th = enhance_uses_all_ranked_sections [where create = ?create and loads = ?loads
      and query = "''install''" and docs = ?docs, OF refl c w]
  from th have "generate_doc_suggestions (Some ?create) ?loads ''install'' (Inr ?docs) =
      Inr \<lparr>suggestions =
             map (fill_file_path (find_relevant_sections ''install'' (get_documentation_files ?docs)))
               (parse_suggestions ?loads (Some ''[two]'')),
           model_calls = [(system_prompt, user_prompt ''install''
             (build_context (find_relevant_sections ''install'' (get_documentation_files ?docs))))]\<rparr>"
    by (rule conjunct1)
  then show ?thesis unfolding p f by simp
qed

text \<open>
  C10 as stated fails: with six ranked sections, the sixth titled \<open>General\<close>, a parsed
  suggestion for the section \<open>General\<close> receives the file path of the sixth section,
  which is not part of the prompt's context; a mapping built from the first five leaves
  it without a path.
\<close>

theorem enhance_top5_counterexample:
  "map (\<lambda>r. lower (title (r_section r)))
     (find_relevant_sections ''key''
        (get_documentation_files
           [\<lparr>rel_path = ''guide.md'', file_name = ''guide.md'',
             read_text = Some ''# A\<newline>key\<newline># B\<newline>key\<newline># C\<newline>key\<newline># D\<newline>key\<newline># E\<newline>key\<newline># General\<newline>key''\<rparr>])) =
     [''a'', ''b'', ''c'', ''d'', ''e'', ''general''] \<and>
   map_sum id suggestions
     (generate_doc_suggestions (Some (\<lambda>s u. Inr (Some ''- improve it''))) (\<lambda>t. Inl JSONDecodeError)
        ''key''
        (Inr [\<lparr>rel_path = ''guide.md'', file_name = ''guide.md'',
               read_text = Some ''# A\<newline>key\<newline># B\<newline>key\<newline># C\<newline>key\<newline># D\<newline>key\<newline># E\<newline>key\<newline># General\<newline>key''\<rparr>])) =
     Inr [PDict [(''id'', PInt 1), (''section'', PStr ''General''),
                 (''suggestion'', PStr ''improve it''),
                 (''file_path'', PStr ''guide.md''), (''line_number'', PNone)]] \<and>
   enhance_suggestions_with_files
     [PDict [(''id'', PInt 1), (''section'', PStr ''General''),
             (''suggestion'', PStr ''improve it''),
             (''file_path'', PNone), (''line_number'', PNone)]]
     (take 5 (find_relevant_sections ''key''
        (get_documentation_files
           [\<lparr>rel_path = ''guide.md'', file_name = ''guide.md'',
             read_text = Some ''# A\<newline>key\<newline># B\<newline>key\<newline># C\<newline>key\<newline># D\<newline>key\<newline># E\<newline>key\<newline># General\<newline>key''\<rparr>]))) =
     Inr [PDict [(''id'', PInt 1), (''section'', PStr ''General''),
             (''suggestion'', PStr ''improve it''),
             (''file_path'', PNone), (''line_number'', PNone)]]"
  by code_simp

subsection \<open>The two parsers\<close>

lemma greedy_close_Some:
  "greedy_close cs = Some m \<longleftrightarrow>
     (\<exists>mid post. cs = mid @ CHR '']'' # post \<and> CHR '']'' \<notin> set post \<and> m = mid @ [CHR '']''])"
proof
  assume "greedy_close cs = Some m"
  then obtain n where n: "1 \<le> n" "n \<le> length cs" "cs ! (n - 1) = CHR '']''"
    "\<forall>k. n < k \<and> k \<le> length cs \<longrightarrow> cs ! (k - 1) \<noteq> CHR '']''" and m: "m = take n cs"
  proof -
    assume a: "greedy_close cs = Some m"
    assume r: "\<And>n. 1 \<le> n \<Longrightarrow> n \<le> length cs \<Longrightarrow> cs ! (n - 1) = CHR '']'' \<Longrightarrow>
      \<forall>k. n < k \<and> k \<le> length cs \<longrightarrow> cs ! (k - 1) \<noteq> CHR '']'' \<Longrightarrow> m = take n cs \<Longrightarrow> thesis"
    from a obtain n where f: "List.find (\<lambda>n. cs ! (n - 1) = CHR '']'') (rev [1..<Suc (length cs)]) = Some n"
      and t: "m = take n cs"
      unfolding greedy_close_def map_option_eq_Some by blast
    show thesis using f [unfolded find_largest_Some] t r by blast
  qed
  have cs: "cs = take (n - 1) cs @ CHR '']'' # drop n cs"
    using id_take_nth_drop [of "n - 1" cs] n(1-3) by simp
  have "CHR '']'' \<notin> set (drop n cs)"
  proof
    assume "CHR '']'' \<in> set (drop n cs)"
    then obtain i where i: "i < length cs - n" "drop n cs ! i = CHR '']''"
      by (auto simp: in_set_conv_nth)
    then have "cs ! (n + i) = CHR '']''" using n(2) by simp
    moreover have "n < Suc (n + i) \<and> Suc (n + i) \<le> length cs" using i(1) by simp
    ultimately show False using n(4) [rule_format, of "Suc (n + i)"] by simp
  qed
  moreover have "m = take (n - 1) cs @ [CHR '']'']"
    using take_Suc_conv_app_nth [of "n - 1" cs] m n(1-3) by simp
  ultimately show "\<exists>mid post. cs = mid @ CHR '']'' # post \<and> CHR '']'' \<notin> set post \<and> m = mid @ [CHR '']'']"
    using cs by blast
next
  assume "\<exists>mid post. cs = mid @ CHR '']'' # post \<and> CHR '']'' \<notin> set post \<and> m = mid @ [CHR '']'']"
  then obtain mid post where cs: "cs = mid @ CHR '']'' # post" and p: "CHR '']'' \<notin> set post"
    and m: "m = mid @ [CHR '']'']" by blast
  let ?n = "Suc (length mid)"
  have 1: "1 \<le> ?n \<and> ?n \<le> length cs \<and> cs ! (?n - 1) = CHR '']''" using cs by simp
  have 2: "\<forall>k. ?n < k \<and> k \<le> length cs \<longrightarrow> cs ! (k - 1) \<noteq> CHR '']''"
  proof (intro allI impI)
    fix k assume k: "?n < k \<and> k \<le> length cs"
    then have "\<not> k - 1 < length mid" and "k - 1 - length mid \<noteq> 0"
      and "k - 1 - length mid - 1 = k - 1 - ?n" by arith+
    then have eq: "cs ! (k - 1) = post ! (k - 1 - ?n)"
      unfolding cs by (simp only: nth_append nth_Cons' if_False)
    have "length cs = Suc (length mid + length post)" using cs by simp
    then have "k - 1 - ?n < length post" using k by arith
    then have "post ! (k - 1 - ?n) \<in> set post" by (rule nth_mem)
    then have "post ! (k - 1 - ?n) \<noteq> CHR '']''" using p by auto
    then show "cs ! (k - 1) \<noteq> CHR '']''" unfolding eq .
  qed
  have "List.find (\<lambda>n. cs ! (n - 1) = CHR '']'') (rev [1..<Suc (length cs)]) = Some ?n"
    unfolding find_largest_Some using 1 2 by blast
  moreover have "take ?n cs = m" using cs m by simp
  ultimately show "greedy_close cs = Some m"
    unfolding greedy_close_def map_option_eq_Some by blast
qed

lemma greedy_close_None: "greedy_close cs = None \<longleftrightarrow> CHR '']'' \<notin> set cs"
proof -
  have "greedy_close cs = None \<longleftrightarrow> (\<forall>k. 1 \<le> k \<and> k \<le> length cs \<longrightarrow> cs ! (k - 1) \<noteq> CHR '']'')"
    by (simp only: greedy_close_def find_largest_None option.map_disc_iff)
  also have "\<dots> \<longleftrightarrow> (\<forall>i < length cs. cs ! i \<noteq> CHR '']'')"
  proof
    assume a: "\<forall>k. 1 \<le> k \<and> k \<le> length cs \<longrightarrow> cs ! (k - 1) \<noteq> CHR '']''"
    show "\<forall>i < length cs. cs ! i \<noteq> CHR '']''"
    proof (intro allI impI)
      fix i assume "i < length cs"
      then show "cs ! i \<noteq> CHR '']''" using a [rule_format, of "Suc i"] by simp
    qed
  next
    assume a: "\<forall>i < length cs. cs ! i \<noteq> CHR '']''"
    show "\<forall>k. 1 \<le> k \<and> k \<le> length cs \<longrightarrow> cs ! (k - 1) \<noteq> CHR '']''"
    proof (intro allI impI)
      fix k assume "1 \<le> k \<and> k \<le> length cs"
      then have "k - 1 < length cs" by arith
      then show "cs ! (k - 1) \<noteq> CHR '']''" using a by blast
    qed
  qed
  also have "\<dots> \<longleftrightarrow> CHR '']'' \<notin> set cs" by (auto simp: in_set_conv_nth)
  finally show ?thesis .
qed

lemma first_occurrence_unique:
  "x \<notin> set xs \<Longrightarrow> x \<notin> set xs' \<Longrightarrow> xs @ x # ys = xs' @ x # ys' \<Longrightarrow> xs = xs' \<and> ys = ys'"
proof (induction xs arbitrary: xs')
  case Nil
  then show ?case by (cases xs') auto
next
  case (Cons a xs)
  then show ?case by (cases xs') auto
qed

lemma re_search_array_Some:
  "re_search_array c = Some m \<longleftrightarrow>
     (\<exists>pre mid post. c = pre @ CHR ''['' # mid @ CHR '']'' # post \<and>
        CHR ''['' \<notin> set pre \<and> CHR '']'' \<notin> set post \<and> m = CHR ''['' # mid @ [CHR '']''])"
proof (induction c)
  case Nil
  then show ?case by simp
next
  case (Cons x xs)
  show ?case
  proof (cases "x = CHR ''[''")
    case False
    have "(\<exists>pre mid post. x # xs = pre @ CHR ''['' # mid @ CHR '']'' # post \<and>
        CHR ''['' \<notin> set pre \<and> CHR '']'' \<notin> set post \<and> m = CHR ''['' # mid @ [CHR '']'']) \<longleftrightarrow>
      (\<exists>pre mid post. xs = pre @ CHR ''['' # mid @ CHR '']'' # post \<and>
        CHR ''['' \<notin> set pre \<and> CHR '']'' \<notin> set post \<and> m = CHR ''['' # mid @ [CHR '']''])"
      (is "?L \<longleftrightarrow> ?R")
    proof
      assume ?L
      then obtain pre mid post where d: "x # xs = pre @ CHR ''['' # mid @ CHR '']'' # post"
        "CHR ''['' \<notin> set pre" "CHR '']'' \<notin> set post" "m = CHR ''['' # mid @ [CHR '']'']" by blast
      from d(1) False obtain pre' where "pre = x # pre'" by (cases pre) auto
      then show ?R using d by auto
    next
      assume ?R
      then obtain pre mid post where d: "xs = pre @ CHR ''['' # mid @ CHR '']'' # post"
        "CHR ''['' \<notin> set pre" "CHR '']'' \<notin> set post" "m = CHR ''['' # mid @ [CHR '']'']" by blast
      have "x # xs = (x # pre) @ CHR ''['' # mid @ CHR '']'' # post \<and> CHR ''['' \<notin> set (x # pre)"
        using d False by simp
      then show ?L using d(3,4) by blast
    qed
    then show ?thesis using False Cons.IH by simp
  next
    case True
    have dec: "(\<exists>pre mid post. x # xs = pre @ CHR ''['' # mid @ CHR '']'' # post \<and>
        CHR ''['' \<notin> set pre \<and> CHR '']'' \<notin> set post \<and> m = CHR ''['' # mid @ [CHR '']'']) \<longleftrightarrow>
      (\<exists>mid post. xs = mid @ CHR '']'' # post \<and> CHR '']'' \<notin> set post \<and>
         m = CHR ''['' # mid @ [CHR '']''])"
      (is "?L \<longleftrightarrow> ?R")
    proof
      assume ?L
      then obtain pre mid post where d: "x # xs = pre @ CHR ''['' # mid @ CHR '']'' # post"
        "CHR ''['' \<notin> set pre" "CHR '']'' \<notin> set post" "m = CHR ''['' # mid @ [CHR '']'']" by blast
      have "pre = []" using d(1,2) True by (cases pre) auto
      then show ?R using d by auto
    next
      assume ?R
      then obtain mid post where d: "xs = mid @ CHR '']'' # post" "CHR '']'' \<notin> set post"
        "m = CHR ''['' # mid @ [CHR '']'']" by blast
      have "x # xs = [] @ CHR ''['' # mid @ CHR '']'' # post \<and> CHR ''['' \<notin> set []"
        using d True by simp
      then show ?L using d(2,3) by blast
    qed
    show ?thesis
    proof (cases "greedy_close xs")
      case None
      then have no: "CHR '']'' \<notin> set xs" by (simp add: greedy_close_None)
      then have "\<not> ?R" by auto
      moreover have "re_search_array xs \<noteq> Some m"
        unfolding Cons.IH using no by auto
      ultimately show ?thesis using True None dec by simp
    next
      case (Some g)
      from Some obtain gm gp where g: "xs = gm @ CHR '']'' # gp" "CHR '']'' \<notin> set gp"
        "g = gm @ [CHR '']'']" unfolding greedy_close_Some by blast
      have "?R \<longleftrightarrow> m = CHR ''['' # g"
      proof
        assume ?R
        then obtain mid post where d: "xs = mid @ CHR '']'' # post" "CHR '']'' \<notin> set post"
          "m = CHR ''['' # mid @ [CHR '']'']" by blast
        have "rev post @ CHR '']'' # rev mid = rev gp @ CHR '']'' # rev gm"
          using d(1) g(1) by (metis rev.simps(2) rev_append append_assoc append_Cons append_Nil)
        then have "rev mid = rev gm"
          using first_occurrence_unique [of "CHR '']''" "rev post" "rev gp" "rev mid" "rev gm"]
            d(2) g(2) by simp
        then show "m = CHR ''['' # g" using d(3) g(3) by simp
      next
        assume "m = CHR ''['' # g"
        then show ?R using g by blast
      qed
      then show ?thesis using True Some dec by auto
    qed
  qed
qed

lemma re_search_array_None:
  "re_search_array c = None \<longleftrightarrow>
     \<not> (\<exists>pre mid post. c = pre @ CHR ''['' # mid @ CHR '']'' # post)"
proof (induction c)
  case Nil
  then show ?case by simp
next
  case (Cons x xs)
  show ?case
  proof (cases "x = CHR ''[''")
    case False
    have "(\<exists>pre mid post. x # xs = pre @ CHR ''['' # mid @ CHR '']'' # post) \<longleftrightarrow>
      (\<exists>pre mid post. xs = pre @ CHR ''['' # mid @ CHR '']'' # post)" (is "?L \<longleftrightarrow> ?R")
    proof
      assume ?L
      then obtain pre mid post where d: "x # xs = pre @ CHR ''['' # mid @ CHR '']'' # post" by blast
      from d False obtain pre' where "pre = x # pre'" by (cases pre) auto
      then show ?R using d by auto
    next
      assume ?R
      then obtain pre mid post where d: "xs = pre @ CHR ''['' # mid @ CHR '']'' # post" by blast
      then have "x # xs = (x # pre) @ CHR ''['' # mid @ CHR '']'' # post" by simp
      then show ?L by blast
    qed
    then show ?thesis using False Cons.IH by simp
  next
    case True
    show ?thesis
    proof (cases "greedy_close xs")
      case None
      then have no: "CHR '']'' \<notin> set xs" by (simp add: greedy_close_None)
      have a: "\<not> (\<exists>pre mid post. xs = pre @ CHR ''['' # mid @ CHR '']'' # post)"
        using no by auto
      have b: "\<not> (\<exists>pre mid post. x # xs = pre @ CHR ''['' # mid @ CHR '']'' # post)"
      proof
        assume "\<exists>pre mid post. x # xs = pre @ CHR ''['' # mid @ CHR '']'' # post"
        then obtain pre mid post where d: "x # xs = pre @ CHR ''['' # mid @ CHR '']'' # post" by blast
        then have "CHR '']'' \<in> set (x # xs)" by simp
        then show False using no True by simp
      qed
      have "re_search_array xs = None" using a Cons.IH by simp
      then show ?thesis using True None b by simp
    next
      case (Some g)
      then obtain gm gp where g: "xs = gm @ CHR '']'' # gp"
        unfolding greedy_close_Some by blast
      then have "x # xs = [] @ CHR ''['' # gm @ CHR '']'' # gp" using True by simp
      then have "\<exists>pre mid post. x # xs = pre @ CHR ''['' # mid @ CHR '']'' # post" by blast
      then show ?thesis using True Some by simp
    qed
  qed
qed

text \<open>
  The first half of the parsing rule: the text from the first opening bracket to the last
  closing bracket is decoded, and a decoded list is returned as it is; an answer without
  an opening bracket followed by a closing bracket goes to the structured text parser.
\<close>

theorem parse_suggestions_json_first:
  "(\<forall>pre mid post v.
      answer = pre @ CHR ''['' # mid @ CHR '']'' # post \<longrightarrow>
      CHR ''['' \<notin> set pre \<longrightarrow> CHR '']'' \<notin> set post \<longrightarrow>
      loads (CHR ''['' # mid @ [CHR '']'']) = Inr v \<longrightarrow>
      parse_suggestions loads (Some answer) = v) \<and>
   (\<not> (\<exists>pre mid post. answer = pre @ CHR ''['' # mid @ CHR '']'' # post) \<longrightarrow>
      parse_suggestions loads (Some answer) = map as_dict (parse_text_suggestions answer))"
proof -
  have a: "parse_suggestions loads (Some answer) = v"
    if "answer = pre @ CHR ''['' # mid @ CHR '']'' # post" "CHR ''['' \<notin> set pre"
      "CHR '']'' \<notin> set post" "loads (CHR ''['' # mid @ [CHR '']'']) = Inr v"
    for pre mid post v
  proof -
    have "re_search_array answer = Some (CHR ''['' # mid @ [CHR '']''])"
      unfolding re_search_array_Some using that(1-3) by blast
    then show ?thesis
      using that(4) by (simp add: parse_suggestions_def parse_attempt_def)
  qed
  have b: "parse_suggestions loads (Some answer) = map as_dict (parse_text_suggestions answer)"
    if "\<not> (\<exists>pre mid post. answer = pre @ CHR ''['' # mid @ CHR '']'' # post)"
  proof -
    have "re_search_array answer = None" unfolding re_search_array_None using that .
    then show ?thesis by (simp add: parse_suggestions_def parse_attempt_def)
  qed
  show ?thesis using a b by blast
qed

theorem parse_suggestions_json_first_witness:
  "parse_suggestions (\<lambda>t. if t = ''[1, [2]]'' then Inr [PInt 1, PList [PInt 2]] else Inl JSONDecodeError)
     (Some ''Here: [1, [2]] done'') = [PInt 1, PList [PInt 2]] \<and>
   parse_suggestions (\<lambda>t. Inl JSONDecodeError) (Some ''- do it'') =
     [PDict [(''id'', PInt 1), (''section'', PStr ''General''), (''suggestion'', PStr ''do it''),
             (''file_path'', PNone), (''line_number'', PNone)]]"
proof -
  let ?loads = "\<lambda>t. if t = ''[1, [2]]'' then Inr [PInt 1, PList [PInt 2]]
                  else (Inl JSONDecodeError :: error + pyval list)"
  have d: "''Here: [1, [2]] done'' = ''Here: '' @ CHR ''['' # ''1, [2]'' @ CHR '']'' # '' done''"
    by simp
  have p: "CHR ''['' \<notin> set ''Here: ''" by simp
  have q: "CHR '']'' \<notin> set '' done''" by simp
  have l: "?loads (CHR ''['' # ''1, [2]'' @ [CHR '']'']) = Inr [PInt 1, PList [PInt 2]]" by simp
  have 1: "parse_suggestions ?loads (Some ''Here: [1, [2]] done'') = [PInt 1, PList [PInt 2]]"
    using parse_suggestions_json_first [of "''Here: [1, [2]] done''" ?loads] d p q l by blast
  have n: "re_search_array ''- do it'' = None" by code_simp
  then have "\<not> (\<exists>pre mid post. ''- do it'' = pre @ CHR ''['' # mid @ CHR '']'' # post)"
    unfolding re_search_array_None .
  then have "parse_suggestions (\<lambda>t. Inl JSONDecodeError) (Some ''- do it'') =
      map as_dict (parse_text_suggestions ''- do it'')"
    using parse_suggestions_json_first [of "''- do it''" "\<lambda>t. Inl JSONDecodeError"] by blast
  moreover have "map as_dict (parse_text_suggestions ''- do it'') =
     [PDict [(''id'', PInt 1), (''section'', PStr ''General''), (''suggestion'', PStr ''do it''),
             (''file_path'', PNone), (''line_number'', PNone)]]" by code_simp
  ultimately show ?thesis using 1 by simp
qed

lemma numbered_item_text:
  assumes "list_ex (\<lambda>m. prefix m line) [''1.'', ''2.'', ''3.'', ''4.'', ''5.'']"
  shows "item_text line = strip (drop 2 line)"
proof -
  from assms obtain d rest where l: "line = d # CHR ''.'' # rest" and d: "d \<noteq> CHR ''.''"
    by (auto simp: prefix_def)
  then show ?thesis by (simp add: item_text_def find_char_def)
qed

lemma dash_item_text:
  assumes "prefix ''-'' line" and "CHR ''.'' \<notin> set line"
  shows "item_text line = strip (drop 1 line)"
  using assms by (simp add: item_text_def)

text \<open>
  The body of a new suggestion, for a trimmed line that starts with a numbered marker or
  that starts with a dash and holds no period: the trimmed rest of the line after the
  marker.
\<close>

theorem item_text_after_marker:
  assumes "starts_item line"
    and "prefix ''-'' line \<longrightarrow> CHR ''.'' \<notin> set line"
  shows "item_text line = (if prefix ''-'' line then strip (drop 1 line) else strip (drop 2 line))"
  using assms numbered_item_text dash_item_text by (auto simp: starts_item_def)

lemma parse_text_loop_ids:
  assumes "parse_text_loop S cur ls = (S', cur')"
    and "map s_id (flush S cur) = map int [1..<Suc (length (flush S cur))]"
  shows "map s_id (flush S' cur') = map int [1..<Suc (length (flush S' cur'))]"
  using assms
proof (induction ls arbitrary: S cur)
  case Nil
  then show ?case by simp
next
  case (Cons raw ls)
  show ?case
  proof (cases "starts_item (strip raw)")
    case True
    let ?new = "\<lparr>s_id = int (length (flush S cur)) + 1, s_section = ''General'',
                        s_suggestion = item_text (strip raw), s_file_path = None,
                        s_line_number = None\<rparr>"
    have step: "parse_text_loop (flush S cur) (Some ?new) ls = (S', cur')"
      using Cons.prems(1) True by (simp add: Let_def)
    have pre: "map s_id (flush (flush S cur) (Some ?new)) =
        map int [1..<Suc (length (flush (flush S cur) (Some ?new)))]"
      using Cons.prems(2) by (simp add: flush_def)
    show ?thesis by (rule Cons.IH[OF step pre])
  next
    case False
    show ?thesis
    proof (cases "cur \<noteq> None \<and> strip raw \<noteq> []")
      case True
      then obtain c where c: "cur = Some c" by auto
      let ?cur = "map_option (\<lambda>c. c\<lparr>s_suggestion := s_suggestion c @ '' '' @ strip raw\<rparr>) cur"
      have step: "parse_text_loop S ?cur ls = (S', cur')"
        using Cons.prems(1) False True by (simp add: Let_def)
      have pre: "map s_id (flush S ?cur) = map int [1..<Suc (length (flush S ?cur))]"
        using Cons.prems(2) c by (simp add: flush_def)
      show ?thesis by (rule Cons.IH[OF step pre])
    next
      case F2: False
      have step: "parse_text_loop S cur ls = (S', cur')"
        using Cons.prems(1) False F2 by (auto simp: Let_def)
      show ?thesis by (rule Cons.IH[OF step Cons.prems(2)])
    qed
  qed
qed

lemma parse_text_loop_shape:
  assumes "parse_text_loop S cur ls = (S', cur')"
    and "\<forall>s \<in> set (flush S cur). s_section s = ''General'' \<and> s_file_path s = None \<and> s_line_number s = None"
  shows "\<forall>s \<in> set (flush S' cur'). s_section s = ''General'' \<and> s_file_path s = None \<and> s_line_number s = None"
  using assms
proof (induction ls arbitrary: S cur)
  case Nil
  then show ?case by simp
next
  case (Cons raw ls)
  show ?case
  proof (cases "starts_item (strip raw)")
    case True
    let ?new = "\<lparr>s_id = int (length (flush S cur)) + 1, s_section = ''General'',
                        s_suggestion = item_text (strip raw), s_file_path = None,
                        s_line_number = None\<rparr>"
    have step: "parse_text_loop (flush S cur) (Some ?new) ls = (S', cur')"
      using Cons.prems(1) True by (simp add: Let_def)
    have pre: "\<forall>s \<in> set (flush (flush S cur) (Some ?new)).
        s_section s = ''General'' \<and> s_file_path s = None \<and> s_line_number s = None"
      using Cons.prems(2) by (simp add: flush_def)
    show ?thesis by (rule Cons.IH[OF step pre])
  next
    case False
    show ?thesis
    proof (cases "cur \<noteq> None \<and> strip raw \<noteq> []")
      case True
      then obtain c where c: "cur = Some c" by auto
      let ?cur = "map_option (\<lambda>c. c\<lparr>s_suggestion := s_suggestion c @ '' '' @ strip raw\<rparr>) cur"
      have step: "parse_text_loop S ?cur ls = (S', cur')"
        using Cons.prems(1) False True by (simp add: Let_def)
      have pre: "\<forall>s \<in> set (flush S ?cur).
        s_section s = ''General'' \<and> s_file_path s = None \<and> s_line_number s = None"
        using Cons.prems(2) c by (simp add: flush_def)
      show ?thesis by (rule Cons.IH[OF step pre])
    next
      case F2: False
      have step: "parse_text_loop S cur ls = (S', cur')"
        using Cons.prems(1) False F2 by (auto simp: Let_def)
      show ?thesis by (rule Cons.IH[OF step Cons.prems(2)])
    qed
  qed
qed

text \<open>
  The structured text parser returns the fallback set for \<open>general update\<close>, or a
  non-empty list of suggestions whose ids count up from 1, with the section
  \<open>General\<close> and neither file path nor line number.
\<close>

theorem parse_text_suggestions_ids:
  "parse_text_suggestions text = get_fallback_suggestions ''general update'' \<or>
   (parse_text_suggestions text \<noteq> [] \<and>
    map s_id (parse_text_suggestions text) =
      map int [1..<Suc (length (parse_text_suggestions text))] \<and>
    list_all (\<lambda>s. s_section s = ''General'' \<and> s_file_path s = None \<and> s_line_number s = None)
      (parse_text_suggestions text))"
proof -
  obtain S cur where l: "parse_text_loop [] None (split_on newline text) = (S, cur)"
    by (metis surj_pair)
  have i: "map s_id (flush S cur) = map int [1..<Suc (length (flush S cur))]"
    using parse_text_loop_ids[OF l] by (simp add: flush_def)
  have s: "\<forall>s \<in> set (flush S cur). s_section s = ''General'' \<and> s_file_path s = None \<and> s_line_number s = None"
    using parse_text_loop_shape[OF l] by (simp add: flush_def)
  show ?thesis
  proof (cases "flush S cur = []")
    case True
    then show ?thesis using l by (simp add: parse_text_suggestions_def)
  next
    case False
    then have "parse_text_suggestions text = flush S cur"
      using l by (simp add: parse_text_suggestions_def)
    then show ?thesis using False i s by (simp add: list_all_iff)
  qed
qed

theorem item_text_after_marker_witness:
  "item_text ''3.  Fix the intro '' = ''Fix the intro'' \<and> item_text ''- plain dash'' = ''plain dash''"
proof -
  have a: "starts_item ''3.  Fix the intro ''" by code_simp
  have b: "prefix ''-'' ''3.  Fix the intro '' \<longrightarrow> CHR ''.'' \<notin> set ''3.  Fix the intro ''" by simp
  have c: "starts_item ''- plain dash''" by code_simp
  have d: "prefix ''-'' ''- plain dash'' \<longrightarrow> CHR ''.'' \<notin> set ''- plain dash''" by simp
  have e: "strip (drop 2 ''3.  Fix the intro '') = ''Fix the intro''" by code_simp
  have f: "strip (drop 1 ''- plain dash'') = ''plain dash''" by code_simp
  show ?thesis
    using item_text_after_marker [OF a b] item_text_after_marker [OF c d] e f by simp
qed

theorem parse_text_suggestions_ids_witness:
  "map s_id (parse_text_suggestions ''Plan:\<newline>1. one\<newline>  more\<newline>- two\<newline>2. three'') = [1, 2, 3]"
proof -
  let ?t = "''Plan:\<newline>1. one\<newline>  more\<newline>- two\<newline>2. three''"
  have n: "length (parse_text_suggestions ?t) = 3" by code_simp
  have f: "parse_text_suggestions ?t \<noteq> get_fallback_suggestions ''general update''"
    using n by (auto simp: get_fallback_suggestions_def)
  have "map s_id (parse_text_suggestions ?t) = map int [1..<Suc (length (parse_text_suggestions ?t))]"
    using parse_text_suggestions_ids [of ?t] f by blast
  then show ?thesis unfolding n by (simp add: upt_rec)
qed

section \<open>Properties of the Backup-and-Apply Engine\<close>

lemma apply_suggestion_to_content_eq:
  "apply_suggestion_to_content env w text s =
     (text @ comment_block (strftime_now env (fs_ticks w) ''%Y-%m-%d %H:%M:%S'') s,
      w\<lparr>fs_ticks := Suc (fs_ticks w)\<rparr>)"
  by (simp add: apply_suggestion_to_content_def)

lemma comment_block_line_number:
  "comment_block stamp (s\<lparr>s_line_number := n\<rparr>) = comment_block stamp s"
  by (simp add: comment_block_def)

lemma apply_single_line_number:
  "apply_single_suggestion env w p (s\<lparr>s_line_number := n\<rparr>) = apply_single_suggestion env w p s"
  by (simp add: apply_single_suggestion_def apply_suggestion_to_content_eq comment_block_line_number
      split: option.splits)

lemma apply_one_line_number:
  "apply_one env state (s\<lparr>s_line_number := n\<rparr>) = apply_one env state s"
  by (simp add: apply_one_def add_error_def apply_single_line_number Let_def
      split: prod.splits option.splits sum.splits bool.splits)

lemma apply_loop_snoc:
  "apply_loop env state (xs @ [s]) = apply_one env (apply_loop env state xs) s"
  by (induction xs arbitrary: state) simp_all

lemma apply_suggestions_snoc:
  "apply_suggestions env w0 (xs @ [s]) = apply_one env (apply_suggestions env w0 xs) s"
  by (simp add: apply_suggestions_def apply_loop_snoc)

lemma universal_newlines_id:
  "carriage_return \<notin> set t \<Longrightarrow> universal_newlines t = t"
  by (induction t rule: universal_newlines.induct) auto

lemma create_backup_eq:
  "create_backup env w p =
     (let bp = join_path env (backup_dir env)
                 (stem env p @ ''_'' @ strftime_now env (fs_ticks w) ''%Y%m%d_%H%M%S'' @ suffix env p)
      in case copy_raises env p bp of
           Some msg \<Rightarrow> (Inl msg, w\<lparr>fs_ticks := Suc (fs_ticks w)\<rparr>)
         | None \<Rightarrow> (Inr bp, w\<lparr>fs_ticks := Suc (fs_ticks w),
                                fs_files := (fs_files w)(bp := fs_files w p)\<rparr>))"
  by (simp add: create_backup_def Let_def split: option.splits)

lemma apply_one_success_world:
  assumes "s_file_path s = Some file_path" and "file_path \<noteq> []"
    and "fs_files w (join_path env (docs_root env) file_path) = Some old"
    and "copy_raises env (join_path env (docs_root env) file_path)
           (join_path env (backup_dir env)
              (stem env (join_path env (docs_root env) file_path) @ ''_'' @
               strftime_now env (fs_ticks w) ''%Y%m%d_%H%M%S'' @
               suffix env (join_path env (docs_root env) file_path))) = None"
    and "read_raises env (join_path env (docs_root env) file_path) = None"
    and "write_raises env (join_path env (docs_root env) file_path) = None"
  shows "snd (apply_one env (results, w) s) =
           w\<lparr>fs_ticks := Suc (Suc (fs_ticks w)),
              fs_files :=
                ((fs_files w)
                   (join_path env (backup_dir env)
                      (stem env (join_path env (docs_root env) file_path) @ ''_'' @
                       strftime_now env (fs_ticks w) ''%Y%m%d_%H%M%S'' @
                       suffix env (join_path env (docs_root env) file_path)) := Some old))
                  (join_path env (docs_root env) file_path \<mapsto>
                     write_newlines env
                       (universal_newlines old @
                        comment_block (strftime_now env (Suc (fs_ticks w)) ''%Y-%m-%d %H:%M:%S'') s))\<rparr>"
  using assms
  by (auto simp: apply_one_def create_backup_eq apply_single_suggestion_def
      apply_suggestion_to_content_eq Let_def split: option.splits if_splits)

text \<open>
  C8, amended. For a suggestion processed after any earlier suggestions of the batch,
  whose file is backed up, read and written without an exception: afterwards the file
  holds, with the line feeds as \<open>write_text\<close> stores them, the text \<open>read_text\<close> returned
  (the previous content with every CR LF pair and every other CR replaced by one LF)
  followed by the comment block made of the timestamp, the section label and the body.
  For a previous content without CR, stored without translation, that is the previous
  content followed by the block. The backup holds the previous content, no other file
  changes, and the outcome is the same for every \<open>line_number\<close>.
\<close>

theorem apply_appends_to_file:
  assumes "apply_suggestions env w0 before = (results, w)"
    and "s_file_path s = Some file_path" and "file_path \<noteq> []"
    and "full_path = join_path env (docs_root env) file_path"
    and "fs_files w full_path = Some old"
    and "backup_path = join_path env (backup_dir env)
           (stem env full_path @ ''_'' @ strftime_now env (fs_ticks w) ''%Y%m%d_%H%M%S'' @
            suffix env full_path)"
    and "copy_raises env full_path backup_path = None"
    and "read_raises env full_path = None" and "write_raises env full_path = None"
    and "stamp = strftime_now env (Suc (fs_ticks w)) ''%Y-%m-%d %H:%M:%S''"
    and "apply_suggestions env w0 (before @ [s]) = (results', w')"
  shows "fs_files w' full_path =
           Some (write_newlines env (universal_newlines old @ comment_block stamp s)) \<and>
         (carriage_return \<notin> set old \<longrightarrow> write_newlines env = (\<lambda>t. t) \<longrightarrow>
            fs_files w' full_path = Some (old @ comment_block stamp s)) \<and>
         (backup_path \<noteq> full_path \<longrightarrow> fs_files w' backup_path = Some old) \<and>
         (\<forall>q. q \<noteq> full_path \<longrightarrow> q \<noteq> backup_path \<longrightarrow> fs_files w' q = fs_files w q) \<and>
         comment_block stamp s =
           [newline, newline] @ ''<!-- TODO: '' @ stamp @ '' - '' @ s_section s @ '' -->'' @
           [newline] @ ''<!-- Suggestion: '' @ s_suggestion s @ '' -->'' @ [newline] \<and>
         (\<forall>n. apply_suggestions env w0 (before @ [s\<lparr>s_line_number := n\<rparr>]) = (results', w'))"
proof -
  have step: "apply_one env (results, w) s = (results', w')"
    using assms(1,11) by (simp add: apply_suggestions_snoc)
  have w': "w' = w\<lparr>fs_ticks := Suc (Suc (fs_ticks w)),
              fs_files := ((fs_files w)(backup_path := Some old))
                  (full_path \<mapsto>
                     write_newlines env (universal_newlines old @ comment_block stamp s))\<rparr>"
    using apply_one_success_world [of s file_path w env old results]
      assms(2,3,5,7,8,9) step
    unfolding assms(4,6,10) by simp
  have a: "fs_files w' full_path =
           Some (write_newlines env (universal_newlines old @ comment_block stamp s))"
    by (simp add: w')
  have b: "carriage_return \<notin> set old \<longrightarrow> write_newlines env = (\<lambda>t. t) \<longrightarrow>
            fs_files w' full_path = Some (old @ comment_block stamp s)"
    using a by (simp add: universal_newlines_id)
  have c: "backup_path \<noteq> full_path \<longrightarrow> fs_files w' backup_path = Some old"
    by (simp add: w')
  have d: "\<forall>q. q \<noteq> full_path \<longrightarrow> q \<noteq> backup_path \<longrightarrow> fs_files w' q = fs_files w q"
    by (simp add: w')
  have e: "comment_block stamp s =
           [newline, newline] @ ''<!-- TODO: '' @ stamp @ '' - '' @ s_section s @ '' -->'' @
           [newline] @ ''<!-- Suggestion: '' @ s_suggestion s @ '' -->'' @ [newline]"
    by (simp only: comment_block_def)
  have f: "\<forall>n. apply_suggestions env w0 (before @ [s\<lparr>s_line_number := n\<rparr>]) = (results', w')"
    using assms(1) step by (simp add: apply_suggestions_snoc apply_one_line_number)
  show ?thesis using a b c d e f by (intro conjI)
qed

theorem apply_appends_to_file_witness:
  "fs_files
     (snd (apply_suggestions (example_env (\<lambda>a b. None) (\<lambda>p. None)) example_world
             [example_suggestion])) ''docs/guide.md'' =
     Some ''# Guide\<newline>\<newline><!-- TODO: 2024-01-01 12:00:00 - Intro -->\<newline><!-- Suggestion: Say hello -->\<newline>'' \<and>
   fs_files
     (snd (apply_suggestions (example_env (\<lambda>a b. None) (\<lambda>p. None)) example_world
             [example_suggestion])) ''backups/guide_20240101_120000.md'' = Some ''# Guide''"
proof -
  let ?env = "example_env (\<lambda>a b. None) (\<lambda>p. None)"
  have s0: "apply_suggestions ?env example_world [] =
      (\<lparr>success = [], errors = [], backups = []\<rparr>, example_world)"
    by (simp add: apply_suggestions_def)
  have p: "s_file_path example_suggestion = Some ''guide.md''" by (simp add: example_suggestion_def)
  have ne: "''guide.md'' \<noteq> []" by simp
  have full: "''docs/guide.md'' = join_path ?env (docs_root ?env) ''guide.md''"
    by (simp add: example_env_def)
  have old: "fs_files example_world ''docs/guide.md'' = Some ''# Guide''"
    by (simp add: example_world_def)
  have bp: "''backups/guide_20240101_120000.md'' = join_path ?env (backup_dir ?env)
           (stem ?env ''docs/guide.md'' @ ''_'' @
            strftime_now ?env (fs_ticks example_world) ''%Y%m%d_%H%M%S'' @
            suffix ?env ''docs/guide.md'')"
    by (simp add: example_env_def)
  have c: "copy_raises ?env ''docs/guide.md'' ''backups/guide_20240101_120000.md'' = None"
    by (simp add: example_env_def)
  have r: "read_raises ?env ''docs/guide.md'' = None" by (simp add: example_env_def)
  have wr: "write_raises ?env ''docs/guide.md'' = None" by (simp add: example_env_def)
  have st: "''2024-01-01 12:00:00'' =
      strftime_now ?env (Suc (fs_ticks example_world)) ''%Y-%m-%d %H:%M:%S''"
    by (simp add: example_env_def)
  have cr: "carriage_return \<notin> set ''# Guide''" by (simp add: carriage_return_def)
  have id: "write_newlines ?env = (\<lambda>t. t)" by (simp add: example_env_def)
  have ne2: "''backups/guide_20240101_120000.md'' \<noteq> ''docs/guide.md''" by simp
  note th = apply_appends_to_file [OF s0 p ne full old bp c r wr st, simplified append_Nil,
      OF surjective_pairing]
  have 1: "fs_files (snd (apply_suggestions ?env example_world [example_suggestion])) ''docs/guide.md'' =
      Some (''# Guide'' @ comment_block ''2024-01-01 12:00:00'' example_suggestion)"
    using th cr id by blast
  have 2: "fs_files (snd (apply_suggestions ?env example_world [example_suggestion]))
      ''backups/guide_20240101_120000.md'' = Some ''# Guide''"
    using th ne2 by blast
  have 3: "''# Guide'' @ comment_block ''2024-01-01 12:00:00'' example_suggestion =
      ''# Guide\<newline>\<newline><!-- TODO: 2024-01-01 12:00:00 - Intro -->\<newline><!-- Suggestion: Say hello -->\<newline>''"
    by (simp add: comment_block_def example_suggestion_def newline_def)
  show ?thesis using 1 2 unfolding 3 by (intro conjI)
qed

text \<open>
  C8 as stated fails: a document stored with CR LF line ends is read with universal
  newlines, so after the write its line ends are LF; the new content does not begin with
  the previous content.
\<close>

theorem crlf_rewritten_counterexample:
  "fs_files crlf_world ''docs/guide.md'' = Some (''# Guide'' @ [carriage_return, newline] @ ''text'') \<and>
   fs_files
     (snd (apply_suggestions (example_env (\<lambda>a b. None) (\<lambda>p. None)) crlf_world
             [example_suggestion])) ''docs/guide.md'' =
     Some ''# Guide\<newline>text\<newline>\<newline><!-- TODO: 2024-01-01 12:00:00 - Intro -->\<newline><!-- Suggestion: Say hello -->\<newline>'' \<and>
   \<not> prefix (''# Guide'' @ [carriage_return, newline] @ ''text'')
       ''# Guide\<newline>text\<newline>\<newline><!-- TODO: 2024-01-01 12:00:00 - Intro -->\<newline><!-- Suggestion: Say hello -->\<newline>''"
  by code_simp

text \<open>
  C9, amended. For a suggestion whose file exists: when the backup raises, the error entry
  carries the suggestion id and the message of the exception, and no backup is recorded;
  when the backup succeeds and the read or the write raises, the error entry carries the
  suggestion id and the fixed message \<open>Failed to apply suggestion\<close>, and the backup is
  recorded; when nothing raises, a success entry with the suggestion id, the file path
  and \<open>Successfully applied\<close> is recorded, with the backup.
\<close>

theorem apply_one_outcomes:
  assumes "s_file_path s = Some file_path" and "file_path \<noteq> []"
    and "full_path = join_path env (docs_root env) file_path"
    and "fs_files w full_path \<noteq> None"
    and "backup_path = join_path env (backup_dir env)
           (stem env full_path @ ''_'' @ strftime_now env (fs_ticks w) ''%Y%m%d_%H%M%S'' @
            suffix env full_path)"
    and "apply_one env (results, w) s = (results', w')"
  shows "(\<forall>msg. copy_raises env full_path backup_path = Some msg \<longrightarrow>
            results' = results\<lparr>errors := errors results @
                         [\<lparr>err_suggestion_id = s_id s, err_error = msg\<rparr>]\<rparr>) \<and>
         (copy_raises env full_path backup_path = None \<longrightarrow>
            read_raises env full_path \<noteq> None \<or> write_raises env full_path \<noteq> None \<longrightarrow>
            results' = results\<lparr>errors := errors results @
                         [\<lparr>err_suggestion_id = s_id s,
                           err_error = ''Failed to apply suggestion''\<rparr>],
                       backups := backups results @ [backup_path]\<rparr>) \<and>
         (copy_raises env full_path backup_path = None \<longrightarrow>
            read_raises env full_path = None \<longrightarrow> write_raises env full_path = None \<longrightarrow>
            results' = results\<lparr>success := success results @
                         [\<lparr>ok_suggestion_id = s_id s, ok_file_path = file_path,
                           ok_message = ''Successfully applied''\<rparr>],
                       backups := backups results @ [backup_path]\<rparr>)"
proof -
  obtain old where old: "fs_files w full_path = Some old" using assms(4) by auto
  have 1: "results' = results\<lparr>errors := errors results @
                         [\<lparr>err_suggestion_id = s_id s, err_error = msg\<rparr>]\<rparr>"
    if "copy_raises env full_path backup_path = Some msg" for msg
    using assms(6) that old assms(1,2) unfolding assms(3,5)
    by (simp add: apply_one_def create_backup_eq add_error_def Let_def)
  have 2: "results' = results\<lparr>errors := errors results @
                         [\<lparr>err_suggestion_id = s_id s,
                           err_error = ''Failed to apply suggestion''\<rparr>],
                       backups := backups results @ [backup_path]\<rparr>"
    if "copy_raises env full_path backup_path = None"
      "read_raises env full_path \<noteq> None \<or> write_raises env full_path \<noteq> None"
    using assms(6) that old assms(1,2) unfolding assms(3,5)
    by (auto simp: apply_one_def create_backup_eq add_error_def apply_single_suggestion_def
        apply_suggestion_to_content_eq Let_def split: option.splits if_splits)
  have 3: "results' = results\<lparr>success := success results @
                         [\<lparr>ok_suggestion_id = s_id s, ok_file_path = file_path,
                           ok_message = ''Successfully applied''\<rparr>],
                       backups := backups results @ [backup_path]\<rparr>"
    if "copy_raises env full_path backup_path = None"
      "read_raises env full_path = None" "write_raises env full_path = None"
    using assms(6) that old assms(1,2) unfolding assms(3,5)
    by (auto simp: apply_one_def create_backup_eq add_error_def apply_single_suggestion_def
        apply_suggestion_to_content_eq Let_def split: option.splits if_splits)
  show ?thesis using 1 2 3 by blast
qed

theorem apply_one_outcomes_witness:
  "fst (apply_one (example_env (\<lambda>a b. Some ''Permission denied'') (\<lambda>p. None))
          (\<lparr>success = [], errors = [], backups = []\<rparr>, example_world) example_suggestion) =
     \<lparr>success = [],
      errors = [\<lparr>err_suggestion_id = 7, err_error = ''Permission denied''\<rparr>],
      backups = []\<rparr> \<and>
   fst (apply_one (example_env (\<lambda>a b. None) (\<lambda>p. None))
          (\<lparr>success = [], errors = [], backups = []\<rparr>, example_world) example_suggestion) =
     \<lparr>success = [\<lparr>ok_suggestion_id = 7, ok_file_path = ''guide.md'',
                  ok_message = ''Successfully applied''\<rparr>],
      errors = [],
      backups = [''backups/guide_20240101_120000.md'']\<rparr>"
proof -
  let ?r0 = "\<lparr>success = [], errors = [], backups = []\<rparr>"
  let ?e1 = "example_env (\<lambda>a b. Some ''Permission denied'') (\<lambda>p. None)"
  let ?e2 = "example_env (\<lambda>a b. None) (\<lambda>p. None)"
  have p: "s_file_path example_suggestion = Some ''guide.md''" by (simp add: example_suggestion_def)
  have ne: "''guide.md'' \<noteq> []" by simp
  have i: "s_id example_suggestion = 7" by (simp add: example_suggestion_def)
  have x1: "fs_files example_world (join_path ?e1 (docs_root ?e1) ''guide.md'') \<noteq> None"
    by (simp add: example_env_def example_world_def)
  have x2: "fs_files example_world (join_path ?e2 (docs_root ?e2) ''guide.md'') \<noteq> None"
    by (simp add: example_env_def example_world_def)
  have 1: "fst (apply_one ?e1 (?r0, example_world) example_suggestion) =
     \<lparr>success = [],
      errors = [\<lparr>err_suggestion_id = 7, err_error = ''Permission denied''\<rparr>],
      backups = []\<rparr>"
    using apply_one_outcomes [OF p ne refl x1 refl surjective_pairing, where results = ?r0]
    by (simp add: example_env_def i)
  have 2: "fst (apply_one ?e2 (?r0, example_world) example_suggestion) =
     \<lparr>success = [\<lparr>ok_suggestion_id = 7, ok_file_path = ''guide.md'',
                  ok_message = ''Successfully applied''\<rparr>],
      errors = [],
      backups = [''backups/guide_20240101_120000.md'']\<rparr>"
    using apply_one_outcomes [OF p ne refl x2 refl surjective_pairing, where results = ?r0]
    by (simp add: example_env_def example_world_def i)
  show ?thesis using 1 2 by (intro conjI)
qed

text \<open>
  C9 as stated fails: the write raises with the message \<open>disk full\<close>, and the error entry
  carries \<open>Failed to apply suggestion\<close>.
\<close>

theorem write_failure_message_counterexample:
  "fst (apply_suggestions (example_env (\<lambda>a b. None) (\<lambda>p. Some ''disk full'')) example_world
          [example_suggestion]) =
     \<lparr>success = [],
      errors = [\<lparr>err_suggestion_id = 7, err_error = ''Failed to apply suggestion''\<rparr>],
      backups = [''backups/guide_20240101_120000.md'']\<rparr>"
  by code_simp

end
